theory Spec2Isabelle
  imports Complex_Main "HOL-Library.Sublist"
begin

section \<open>The Remix route: \<open>app/routes/app._index.tsx\<close>, function \<open>action\<close>\<close>

text \<open>
  The source file holds two versions of the route; the one modelled is the later
  one (its \<open>action\<close> is at lines 213 to 243), which dispatches on the form field
  \<open>action\<close>. It reads three fields of the submitted form, picks a backend endpoint
  from the field \<open>action\<close>, and posts one JSON body to it.

  A form field read with \<open>formData.get\<close> is a string, a \<open>File\<close>, or \<open>null\<close> when the
  field is absent. Strings are sequences of code units; the model keeps the code units
  below 256 (type \<open>char\<close>).
\<close>

datatype form_entry = FString string | FFile string

type_synonym form_data = "(string \<times> form_entry) list"

definition form_get :: "form_data \<Rightarrow> string \<Rightarrow> form_entry option" where
  "form_get fd name = map_of fd name"

subsection \<open>Endpoint selection\<close>

text \<open>
  \<^verbatim>\<open>
  const endpoint = action === "preview" ? "/preview" :
                  action === "generate-orders" ? "/generate-orders" :
                  action === "generate-inventory" ? "/generate-inventory" :
                  action === "clear" ? "/clear-orders" :
                  "/reset-inventory";
  \<close>
  Strict equality with a string literal holds only for a string entry with the same
  code units.
\<close>

definition endpoint :: "form_entry option \<Rightarrow> string" where
  "endpoint a =
     (if a = Some (FString ''preview'') then ''/preview''
      else if a = Some (FString ''generate-orders'') then ''/generate-orders''
      else if a = Some (FString ''generate-inventory'') then ''/generate-inventory''
      else if a = Some (FString ''clear'') then ''/clear-orders''
      else ''/reset-inventory'')"

subsection \<open>\<open>parseInt\<close> with no radix argument\<close>

text \<open>
  \<open>parseInt(count as string)\<close>: the cast has no effect at run time, so \<open>parseInt\<close>
  first converts its argument to a string (\<open>null\<close> becomes \<open>"null"\<close>, a \<open>File\<close> becomes
  \<open>"[object File]"\<close>). It then skips leading white space, reads an optional sign, strips
  a \<open>0x\<close>/\<open>0X\<close> prefix (radix 16, otherwise radix 10), and reads the longest run of
  digits of the radix. No digit gives \<open>NaN\<close>.

  The result \<open>Some n\<close> stands for the Number nearest to the integer \<open>n\<close>, \<open>None\<close> for
  \<open>NaN\<close>. A Number is falsy exactly when it is \<open>NaN\<close>, \<open>+0\<close> or \<open>-0\<close>, and the
  Number nearest to \<open>n\<close> is a zero exactly when \<open>n = 0\<close>.
\<close>

definition js_to_string :: "form_entry option \<Rightarrow> string" where
  "js_to_string v =
     (case v of
        None \<Rightarrow> ''null''
      | Some (FString s) \<Rightarrow> s
      | Some (FFile f) \<Rightarrow> ''[object File]'')"

definition is_js_space :: "char \<Rightarrow> bool" where
  "is_js_space c = (of_char c \<in> {9, 10, 11, 12, 13, 32, 160 :: nat})"

definition digit_value :: "char \<Rightarrow> nat option" where
  "digit_value c =
     (let n = (of_char c :: nat) in
      if 48 \<le> n \<and> n \<le> 57 then Some (n - 48)
      else if 97 \<le> n \<and> n \<le> 122 then Some (n - 87)
      else if 65 \<le> n \<and> n \<le> 90 then Some (n - 55)
      else None)"

definition is_radix_digit :: "nat \<Rightarrow> char \<Rightarrow> bool" where
  "is_radix_digit r c = (case digit_value c of None \<Rightarrow> False | Some d \<Rightarrow> d < r)"

definition radix_value :: "nat \<Rightarrow> string \<Rightarrow> nat" where
  "radix_value r z = foldl (\<lambda>acc c. acc * r + the (digit_value c)) 0 z"

definition parseInt :: "string \<Rightarrow> int option" where
  "parseInt input =
     (let s = dropWhile is_js_space input;
          negative = (s \<noteq> [] \<and> hd s = CHR ''-'');
          s1 = (if s \<noteq> [] \<and> (hd s = CHR ''+'' \<or> hd s = CHR ''-'') then tl s else s);
          hex = (take 2 s1 = ''0x'' \<or> take 2 s1 = ''0X'');
          r = (if hex then 16 else 10);
          s2 = (if hex then drop 2 s1 else s1);
          z = takeWhile (is_radix_digit r) s2
      in if z = [] then None
         else Some ((if negative then - 1 else 1) * int (radix_value r z)))"

subsection \<open>The request body and the handler\<close>

text \<open>
  \<^verbatim>\<open>
  body: JSON.stringify({
    shop_url: session.shop,
    access_token: session.accessToken,
    num_items: parseInt(count as string) || 5,
    date_range_days: parseInt(dateRange as string) || 30
  })
  \<close>
  \<open>a || b\<close> is \<open>b\<close> when \<open>a\<close> is falsy and \<open>a\<close> otherwise. The session's access token
  is optional (\<open>undefined\<close> fields are left out by \<open>JSON.stringify\<close>).
\<close>

definition js_or :: "int option \<Rightarrow> int \<Rightarrow> int" where
  "js_or a b = (case a of None \<Rightarrow> b | Some n \<Rightarrow> if n = 0 then b else n)"

record session =
  shop :: string
  accessToken :: "string option"

record request_body =
  shop_url :: string
  access_token :: "string option"
  num_items :: int
  date_range_days :: int

definition make_body :: "session \<Rightarrow> form_data \<Rightarrow> request_body" where
  "make_body sess fd =
     \<lparr> shop_url = shop sess,
       access_token = accessToken sess,
       num_items = js_or (parseInt (js_to_string (form_get fd ''count''))) 5,
       date_range_days = js_or (parseInt (js_to_string (form_get fd ''dateRange''))) 30 \<rparr>"

text \<open>
  \<^verbatim>\<open>
  try {
    ...
    const response = await fetch(`http://localhost:8000${endpoint}`, { method: "POST", ... });
    const data = await response.json();
    return { success: true, data };
  } catch (error) {
    return { success: false, error: error instanceof Error ? error.message : "An error occurred" };
  }
  \<close>
  A thrown value is an \<open>Error\<close> with a message, or something else. The two awaited
  calls inside \<open>try\<close> (\<open>fetch\<close>, then \<open>response.json()\<close>) are one operation \<open>post\<close> on
  the world outside the route: it takes the URL and the body and either throws or
  yields the decoded response. The handler runs after \<open>authenticate.admin\<close> has
  returned the session and \<open>request.formData()\<close> the form; both stand before the
  \<open>try\<close>, and the model starts from their results.
\<close>

datatype thrown = ErrorObject string | OtherValue

datatype 'd action_result = Success 'd | Failure string

definition respond :: "(thrown + 'd) \<times> 'w \<Rightarrow> 'd action_result \<times> 'w" where
  "respond r =
     (case r of
        (Inr d, w') \<Rightarrow> (Success d, w')
      | (Inl (ErrorObject msg), w') \<Rightarrow> (Failure msg, w')
      | (Inl OtherValue, w') \<Rightarrow> (Failure ''An error occurred'', w'))"

definition action :: "(string \<Rightarrow> request_body \<Rightarrow> 'w \<Rightarrow> (thrown + 'd) \<times> 'w) \<Rightarrow>
    session \<Rightarrow> form_data \<Rightarrow> 'w \<Rightarrow> 'd action_result \<times> 'w" where
  "action post sess fd w =
     respond (post (''http://localhost:8000'' @ endpoint (form_get fd ''action''))
                   (make_body sess fd) w)"

section \<open>Structured data and the response schemas of \<open>backend/prompts.yaml\<close>\<close>

text \<open>
  The model's reply is parsed as JSON. A parsed object keeps its members in order; a
  member is looked up by key (\<open>map_of\<close>). A number is kept as the rational it
  denotes.
\<close>

datatype json =
    JNull
  | JBool bool
  | JNum rat
  | JStr string
  | JArr "json list"
  | JObj "(string \<times> json) list"

fun get_field :: "json \<Rightarrow> string \<Rightarrow> json option" where
  "get_field (JObj members) k = map_of members k"
| "get_field x k = None"

subsection \<open>Validation against a JSON Schema\<close>

text \<open>
  The two response schemas are JSON Schema documents. They are validated with the
  keywords' standard meaning; the keywords below are the ones the schemas use.
  A keyword constrains only the instances of the kind it is about (\<open>minItems\<close> an
  array, \<open>minimum\<close> a number, \<open>pattern\<close> a string, \<open>required\<close> and \<open>properties\<close> an
  object); \<open>default\<close> and any other keyword is an annotation and constrains nothing.
  \<open>integer\<close> is a number with no fractional part.

  The regular-expression engine behind \<open>pattern\<close> and the checker behind \<open>format\<close>
  belong to the validation library, not to the repository: they are the two
  operations of \<open>validator_lib\<close>. A library that treats \<open>format\<close> as an annotation has
  \<open>format_ok = (\<lambda>f s. True)\<close>.
\<close>

record validator_lib =
  re_search :: "string \<Rightarrow> string \<Rightarrow> bool"
  format_ok :: "string \<Rightarrow> string \<Rightarrow> bool"

definition is_integer :: "rat \<Rightarrow> bool" where
  "is_integer q = (q = of_int \<lfloor>q\<rfloor>)"

fun has_type :: "string \<Rightarrow> json \<Rightarrow> bool" where
  "has_type t JNull = (t = ''null'')"
| "has_type t (JBool b) = (t = ''boolean'')"
| "has_type t (JNum q) = (t = ''number'' \<or> (t = ''integer'' \<and> is_integer q))"
| "has_type t (JStr s) = (t = ''string'')"
| "has_type t (JArr xs) = (t = ''array'')"
| "has_type t (JObj members) = (t = ''object'')"

definition type_keyword :: "json \<Rightarrow> json \<Rightarrow> bool" where
  "type_keyword v x =
     (case v of
        JStr t \<Rightarrow> has_type t x
      | JArr ts \<Rightarrow> list_ex (\<lambda>t. case t of JStr n \<Rightarrow> has_type n x | _ \<Rightarrow> False) ts
      | _ \<Rightarrow> False)"

definition required_keyword :: "json \<Rightarrow> json \<Rightarrow> bool" where
  "required_keyword v x =
     (case v of
        JArr names \<Rightarrow>
          (case x of
             JObj members \<Rightarrow>
               list_all (\<lambda>n. case n of JStr k \<Rightarrow> map_of members k \<noteq> None | _ \<Rightarrow> False) names
           | _ \<Rightarrow> True)
      | _ \<Rightarrow> False)"

definition min_items_keyword :: "json \<Rightarrow> json \<Rightarrow> bool" where
  "min_items_keyword v x =
     (case v of
        JNum n \<Rightarrow> (case x of JArr ys \<Rightarrow> n \<le> of_nat (length ys) | _ \<Rightarrow> True)
      | _ \<Rightarrow> False)"

definition minimum_keyword :: "json \<Rightarrow> json \<Rightarrow> bool" where
  "minimum_keyword v x =
     (case v of
        JNum m \<Rightarrow> (case x of JNum q \<Rightarrow> m \<le> q | _ \<Rightarrow> True)
      | _ \<Rightarrow> False)"

definition maximum_keyword :: "json \<Rightarrow> json \<Rightarrow> bool" where
  "maximum_keyword v x =
     (case v of
        JNum m \<Rightarrow> (case x of JNum q \<Rightarrow> q \<le> m | _ \<Rightarrow> True)
      | _ \<Rightarrow> False)"

definition pattern_keyword :: "validator_lib \<Rightarrow> json \<Rightarrow> json \<Rightarrow> bool" where
  "pattern_keyword lib v x =
     (case v of
        JStr p \<Rightarrow> (case x of JStr s \<Rightarrow> re_search lib p s | _ \<Rightarrow> True)
      | _ \<Rightarrow> False)"

definition format_keyword :: "validator_lib \<Rightarrow> json \<Rightarrow> json \<Rightarrow> bool" where
  "format_keyword lib v x =
     (case v of
        JStr f \<Rightarrow> (case x of JStr s \<Rightarrow> format_ok lib f s | _ \<Rightarrow> True)
      | _ \<Rightarrow> False)"

definition enum_keyword :: "json \<Rightarrow> json \<Rightarrow> bool" where
  "enum_keyword v x = (case v of JArr vs \<Rightarrow> x \<in> set vs | _ \<Rightarrow> False)"

text \<open>
  A schema is \<open>true\<close>, \<open>false\<close> or an object of keywords; an instance is accepted
  when every keyword accepts it. A keyword whose value is malformed accepts nothing,
  and so does a schema that is neither a boolean nor an object.
\<close>

fun validate :: "validator_lib \<Rightarrow> json \<Rightarrow> json \<Rightarrow> bool" where
  "validate lib (JBool b) x = b"
| "validate lib (JObj kws) x =
     list_all (\<lambda>(k, v).
       if k = ''type'' then type_keyword v x
       else if k = ''properties'' then
         (case v of
            JObj props \<Rightarrow>
              (case x of
                 JObj members \<Rightarrow>
                   list_all (\<lambda>(name, sub).
                     case map_of members name of
                       None \<Rightarrow> True
                     | Some y \<Rightarrow> validate lib sub y) props
               | _ \<Rightarrow> True)
          | _ \<Rightarrow> False)
       else if k = ''required'' then required_keyword v x
       else if k = ''items'' then
         (case x of JArr ys \<Rightarrow> list_all (validate lib v) ys | _ \<Rightarrow> True)
       else if k = ''minItems'' then min_items_keyword v x
       else if k = ''minimum'' then minimum_keyword v x
       else if k = ''maximum'' then maximum_keyword v x
       else if k = ''pattern'' then pattern_keyword lib v x
       else if k = ''format'' then format_keyword lib v x
       else if k = ''enum'' then enum_keyword v x
       else if k = ''const'' then x = v
       else True) kws"
| "validate lib s x = False"

subsection \<open>\<open>order_response_schema\<close> (prompts.yaml, lines 178 to 274)\<close>

text \<open>
  The pattern of \<open>variantId\<close> is \<^verbatim>\<open>^gid://shopify/ProductVariant/\d+$\<close> once the
  JSON string is decoded (the source writes the backslash twice).
\<close>

definition variant_pattern :: string where
  "variant_pattern = ''^gid://shopify/ProductVariant/'' @ [CHR 0x5C] @ ''d+$''"

definition line_item_schema :: json where
  "line_item_schema =
     JObj [
       (''type'', JStr ''object''),
       (''properties'', JObj [
          (''variantId'', JObj [
             (''type'', JStr ''string''),
             (''pattern'', JStr variant_pattern)]),
          (''quantity'', JObj [
             (''type'', JStr ''integer''),
             (''minimum'', JNum 1),
             (''maximum'', JNum 5)]),
          (''taxable'', JObj [
             (''type'', JStr ''boolean''),
             (''default'', JBool True)])]),
       (''required'', JArr [JStr ''variantId'', JStr ''quantity''])]"

definition shipping_address_schema :: json where
  "shipping_address_schema =
     JObj [
       (''type'', JStr ''object''),
       (''properties'', JObj [
          (''address1'', JObj [(''type'', JStr ''string'')]),
          (''city'', JObj [(''type'', JStr ''string'')]),
          (''province'', JObj [(''type'', JStr ''string'')]),
          (''country'', JObj [(''type'', JStr ''string'')]),
          (''zip'', JObj [(''type'', JStr ''string'')]),
          (''firstName'', JObj [(''type'', JStr ''string'')]),
          (''lastName'', JObj [(''type'', JStr ''string'')])]),
       (''required'', JArr [JStr ''address1'', JStr ''city'', JStr ''province'',
          JStr ''country'', JStr ''zip'', JStr ''firstName'', JStr ''lastName''])]"

definition custom_attribute_schema :: json where
  "custom_attribute_schema =
     JObj [
       (''type'', JStr ''object''),
       (''properties'', JObj [
          (''key'', JObj [(''type'', JStr ''string'')]),
          (''value'', JObj [(''type'', JStr ''string'')])]),
       (''required'', JArr [JStr ''key'', JStr ''value''])]"

definition order_draft_schema :: json where
  "order_draft_schema =
     JObj [
       (''type'', JStr ''object''),
       (''properties'', JObj [
          (''email'', JObj [
             (''type'', JStr ''string''),
             (''format'', JStr ''email'')]),
          (''tags'', JObj [
             (''type'', JStr ''array''),
             (''items'', JObj [(''type'', JStr ''string'')]),
             (''default'', JArr [JStr ''AI_GENERATED''])]),
          (''lineItems'', JObj [
             (''type'', JStr ''array''),
             (''items'', line_item_schema),
             (''minItems'', JNum 1)]),
          (''shippingAddress'', shipping_address_schema),
          (''note'', JObj [
             (''type'', JStr ''string''),
             (''const'', JStr ''Created via Synthetic Data Generator'')]),
          (''customAttributes'', JObj [
             (''type'', JStr ''array''),
             (''items'', custom_attribute_schema),
             (''minItems'', JNum 2)])]),
       (''required'', JArr [JStr ''email'', JStr ''tags'', JStr ''lineItems'',
          JStr ''shippingAddress'', JStr ''note'', JStr ''customAttributes''])]"

definition order_response_schema :: json where
  "order_response_schema =
     JObj [
       (''type'', JStr ''object''),
       (''properties'', JObj [
          (''orders'', JObj [
             (''type'', JStr ''array''),
             (''items'', order_draft_schema)])]),
       (''required'', JArr [JStr ''orders''])]"

subsection \<open>\<open>inventory_response_schema\<close> (prompts.yaml, lines 332 to 369)\<close>

definition adjustment_schema :: json where
  "adjustment_schema =
     JObj [
       (''type'', JStr ''object''),
       (''properties'', JObj [
          (''variant_id'', JObj [(''type'', JStr ''integer'')]),
          (''product_id'', JObj [(''type'', JStr ''integer'')]),
          (''adjustment'', JObj [
             (''type'', JStr ''integer''),
             (''minimum'', JNum (- 5)),
             (''maximum'', JNum 10)]),
          (''sku'', JObj [(''type'', JStr ''string'')]),
          (''reason'', JObj [
             (''type'', JStr ''string''),
             (''enum'', JArr [JStr ''recount'', JStr ''received'', JStr ''damaged'',
                JStr ''sold''])]),
          (''timestamp'', JObj [
             (''type'', JStr ''string''),
             (''format'', JStr ''date-time'')])]),
       (''required'', JArr [JStr ''variant_id'', JStr ''product_id'', JStr ''adjustment'',
          JStr ''reason'', JStr ''timestamp''])]"

definition inventory_response_schema :: json where
  "inventory_response_schema =
     JObj [
       (''type'', JStr ''object''),
       (''properties'', JObj [
          (''adjustments'', JObj [
             (''type'', JStr ''array''),
             (''items'', adjustment_schema)])]),
       (''required'', JArr [JStr ''adjustments''])]"

subsection \<open>What the claims say of an accepted record\<close>

text \<open>
  The structural part of an order draft: \<open>lineItems\<close> is a non-empty array, each line
  item has a string \<open>variantId\<close> that the library's engine matches against the
  schema's pattern and an integer \<open>quantity\<close> from 1 to 5.
\<close>

definition line_item_invariant :: "validator_lib \<Rightarrow> json \<Rightarrow> bool" where
  "line_item_invariant lib it =
     (case (get_field it ''variantId'', get_field it ''quantity'') of
        (Some (JStr v), Some (JNum q)) \<Rightarrow>
          re_search lib variant_pattern v \<and> is_integer q \<and> 1 \<le> q \<and> q \<le> 5
      | _ \<Rightarrow> False)"

definition line_items_invariant :: "validator_lib \<Rightarrow> json \<Rightarrow> bool" where
  "line_items_invariant lib d =
     (case get_field d ''lineItems'' of
        Some (JArr items) \<Rightarrow> items \<noteq> [] \<and> list_all (line_item_invariant lib) items
      | _ \<Rightarrow> False)"

text \<open>
  The marker part, as the claim states it: the tag \<open>AI_GENERATED\<close> among the tags,
  and custom attributes \<open>source = synthetic_data\<close> and \<open>generated_at\<close> (any string
  value).
\<close>

definition has_marker_tag :: "json \<Rightarrow> bool" where
  "has_marker_tag d =
     (case get_field d ''tags'' of
        Some (JArr ts) \<Rightarrow> JStr ''AI_GENERATED'' \<in> set ts
      | _ \<Rightarrow> False)"

definition has_attribute :: "json \<Rightarrow> string \<Rightarrow> (string \<Rightarrow> bool) \<Rightarrow> bool" where
  "has_attribute d k ok =
     (case get_field d ''customAttributes'' of
        Some (JArr attrs) \<Rightarrow>
          list_ex (\<lambda>a. get_field a ''key'' = Some (JStr k) \<and>
                       (case get_field a ''value'' of Some (JStr v) \<Rightarrow> ok v | _ \<Rightarrow> False)) attrs
      | _ \<Rightarrow> False)"

definition carries_markers :: "json \<Rightarrow> bool" where
  "carries_markers d =
     (has_marker_tag d \<and>
      has_attribute d ''source'' (\<lambda>v. v = ''synthetic_data'') \<and>
      has_attribute d ''generated_at'' (\<lambda>v. True))"

text \<open>
  What the schema does fix about tags and custom attributes: \<open>tags\<close> is an array of
  strings, \<open>customAttributes\<close> an array of at least two objects, each with a string
  \<open>key\<close> and a string \<open>value\<close>.
\<close>

definition is_string :: "json \<Rightarrow> bool" where
  "is_string x = (case x of JStr s \<Rightarrow> True | _ \<Rightarrow> False)"

definition is_key_value :: "json \<Rightarrow> bool" where
  "is_key_value a =
     (case (get_field a ''key'', get_field a ''value'') of
        (Some (JStr k), Some (JStr v)) \<Rightarrow> True
      | _ \<Rightarrow> False)"

definition marker_fields_shape :: "json \<Rightarrow> bool" where
  "marker_fields_shape d =
     (case (get_field d ''tags'', get_field d ''customAttributes'') of
        (Some (JArr ts), Some (JArr attrs)) \<Rightarrow>
          list_all is_string ts \<and> 2 \<le> length attrs \<and> list_all is_key_value attrs
      | _ \<Rightarrow> False)"

text \<open>
  An inventory adjustment: an integer \<open>adjustment\<close> from -5 to 10, a \<open>reason\<close> of the
  enumeration, and integer \<open>variant_id\<close> and \<open>product_id\<close>.
\<close>

definition adjustment_invariant :: "json \<Rightarrow> bool" where
  "adjustment_invariant a =
     (case (get_field a ''adjustment'', get_field a ''reason'') of
        (Some (JNum q), Some (JStr r)) \<Rightarrow>
          is_integer q \<and> - 5 \<le> q \<and> q \<le> 10 \<and>
          r \<in> {''recount'', ''received'', ''damaged'', ''sold''}
      | _ \<Rightarrow> False)"

definition ids_are_integers :: "json \<Rightarrow> bool" where
  "ids_are_integers a =
     (case (get_field a ''variant_id'', get_field a ''product_id'') of
        (Some (JNum v), Some (JNum p)) \<Rightarrow> is_integer v \<and> is_integer p
      | _ \<Rightarrow> False)"

text \<open>
  Modelled from the spec: the catalog snapshot is a sequence of \<open>CatalogItem\<close>
  \<open>{ productId, variantId, price, sku, title }\<close>; its declaration is in the backend,
  which is not among the sources. An adjustment references the catalog when its
  \<open>variant_id\<close> is the variant of some item of the snapshot and its \<open>product_id\<close> the
  product of some item.
\<close>

record CatalogItem =
  productId :: int
  variantId :: int
  price :: rat
  sku :: string
  title :: string

definition references_catalog :: "CatalogItem list \<Rightarrow> json \<Rightarrow> bool" where
  "references_catalog snapshot a =
     (case (get_field a ''variant_id'', get_field a ''product_id'') of
        (Some (JNum v), Some (JNum p)) \<Rightarrow>
          list_ex (\<lambda>c. of_int (variantId c) = v) snapshot \<and>
          list_ex (\<lambda>c. of_int (productId c) = p) snapshot
      | _ \<Rightarrow> False)"

subsection \<open>A reference library and sample responses\<close>

text \<open>
  A library that reads the one pattern of the schemas as ECMA-262 does (the whole
  string is the prefix followed by one or more decimal digits) and treats \<open>format\<close> as
  an annotation.
\<close>

definition is_digit :: "char \<Rightarrow> bool" where
  "is_digit c = (48 \<le> (of_char c :: nat) \<and> (of_char c :: nat) \<le> 57)"

definition is_variant_gid :: "string \<Rightarrow> bool" where
  "is_variant_gid s =
     (let p = ''gid://shopify/ProductVariant/''
      in take (length p) s = p \<and> drop (length p) s \<noteq> [] \<and>
         list_all is_digit (drop (length p) s))"

definition reference_lib :: validator_lib where
  "reference_lib =
     \<lparr> re_search = (\<lambda>p s. p = variant_pattern \<and> is_variant_gid s),
       format_ok = (\<lambda>f s. True) \<rparr>"

definition sample_address :: json where
  "sample_address =
     JObj [(''address1'', JStr ''1 Main St''), (''city'', JStr ''Ottawa''),
       (''province'', JStr ''ON''), (''country'', JStr ''CA''), (''zip'', JStr ''K1A 0B1''),
       (''firstName'', JStr ''Ada''), (''lastName'', JStr ''Lovelace'')]"

definition marked_order :: json where
  "marked_order =
     JObj [
       (''email'', JStr ''ada@example.com''),
       (''tags'', JArr [JStr ''AI_GENERATED'']),
       (''lineItems'', JArr [
          JObj [(''variantId'', JStr ''gid://shopify/ProductVariant/42''),
                (''quantity'', JNum 2), (''taxable'', JBool True)]]),
       (''shippingAddress'', sample_address),
       (''note'', JStr ''Created via Synthetic Data Generator''),
       (''customAttributes'', JArr [
          JObj [(''key'', JStr ''source''), (''value'', JStr ''synthetic_data'')],
          JObj [(''key'', JStr ''generated_at''), (''value'', JStr ''2024-01-01T00:00:00Z'')]])]"

definition unmarked_order :: json where
  "unmarked_order =
     JObj [
       (''email'', JStr ''ada@example.com''),
       (''tags'', JArr []),
       (''lineItems'', JArr [
          JObj [(''variantId'', JStr ''gid://shopify/ProductVariant/42''),
                (''quantity'', JNum 2)]]),
       (''shippingAddress'', sample_address),
       (''note'', JStr ''Created via Synthetic Data Generator''),
       (''customAttributes'', JArr [
          JObj [(''key'', JStr ''colour''), (''value'', JStr ''red'')],
          JObj [(''key'', JStr ''size''), (''value'', JStr ''large'')]])]"

definition sample_catalog :: "CatalogItem list" where
  "sample_catalog =
     [\<lparr> productId = 1, variantId = 11, price = 10, sku = ''SKU-11'', title = ''Mug'' \<rparr>]"

definition catalog_adjustment :: json where
  "catalog_adjustment =
     JObj [(''variant_id'', JNum 11), (''product_id'', JNum 1), (''adjustment'', JNum (- 3)),
       (''reason'', JStr ''sold''), (''timestamp'', JStr ''2024-01-01T00:00:00Z'')]"

definition stray_adjustment :: json where
  "stray_adjustment =
     JObj [(''variant_id'', JNum 999), (''product_id'', JNum 888), (''adjustment'', JNum 4),
       (''reason'', JStr ''received''), (''timestamp'', JStr ''2024-01-01T00:00:00Z'')]"

section \<open>BatchApplier\<close>

text \<open>
  Modelled from the spec: \<open>BatchApplier.apply\<close> (section 4.4) is backend code that is
  not among the sources. The spec's words, in order:
  \<^item> \<open>apply(records, createOperation) -> ApplyOutcome\<close>; for each record, independently
    invoke \<open>createOperation(record)\<close> against the commerce API;
  \<^item> the record is placed into \<open>succeeded\<close> on success (capturing the remote
    identifier) or into \<open>failed\<close> on any error (capturing a reason derived from the
    upstream error);
  \<^item> order of processing is the input order, and the order within each list is the
    processing order;
  \<^item> the overall call fails, instead of returning an \<open>ApplyOutcome\<close>, only if the
    commerce API is unreachable for the first attempt (store unreachable, as opposed
    to record rejected);
  \<^item> every created entity is stamped with the Marker as part of the same create
    call.

  The remote store is a state \<open>'s\<close> that every create call may read and change. A
  create call answers with the remote identifier, with a rejection of the record, or
  with the store being unreachable. The Marker is handed to the applier and passed
  on in each create call. Items are applied one after the other, which section 5
  allows.
\<close>

definition Marker :: string where
  "Marker = ''AI_GENERATED''"

datatype 'i create_result = Created 'i | Rejected string | Unreachable string

record 'i AppliedItem =
  remote_id :: 'i

record 'r FailedItem =
  candidate :: 'r
  reason :: string

record ('r, 'i) ApplyOutcome =
  succeeded :: "'i AppliedItem list"
  failed :: "'r FailedItem list"

datatype apply_error = UpstreamUnavailable string

type_synonym ('r, 'i, 's) create_operation = "string \<Rightarrow> 'r \<Rightarrow> 's \<Rightarrow> 'i create_result \<times> 's"

definition empty_outcome :: "('r, 'i) ApplyOutcome" where
  "empty_outcome = \<lparr> succeeded = [], failed = [] \<rparr>"

fun place :: "'r \<Rightarrow> 'i create_result \<Rightarrow> ('r, 'i) ApplyOutcome \<Rightarrow> ('r, 'i) ApplyOutcome" where
  "place r (Created i) out = out\<lparr> succeeded := succeeded out @ [\<lparr> remote_id = i \<rparr>] \<rparr>"
| "place r (Rejected e) out = out\<lparr> failed := failed out @ [\<lparr> candidate = r, reason = e \<rparr>] \<rparr>"
| "place r (Unreachable e) out = out\<lparr> failed := failed out @ [\<lparr> candidate = r, reason = e \<rparr>] \<rparr>"

fun apply_each :: "('r, 'i, 's) create_operation \<Rightarrow> string \<Rightarrow> 'r list \<Rightarrow>
    ('r, 'i) ApplyOutcome \<Rightarrow> 's \<Rightarrow> ('r, 'i) ApplyOutcome \<times> 's" where
  "apply_each create marker [] out s = (out, s)"
| "apply_each create marker (r # rs) out s =
     (case create marker r s of
        (res, s') \<Rightarrow> apply_each create marker rs (place r res out) s')"

definition apply_batch :: "('r, 'i, 's) create_operation \<Rightarrow> string \<Rightarrow> 'r list \<Rightarrow> 's \<Rightarrow>
    (apply_error + ('r, 'i) ApplyOutcome) \<times> 's" where
  "apply_batch create marker records s =
     (case records of
        [] \<Rightarrow> (Inr empty_outcome, s)
      | r # rs \<Rightarrow>
          (case create marker r s of
             (Unreachable e, s') \<Rightarrow> (Inl (UpstreamUnavailable e), s')
           | (res, s') \<Rightarrow>
               (case apply_each create marker rs (place r res empty_outcome) s' of
                  (out, s'') \<Rightarrow> (Inr out, s''))))"

subsection \<open>The run the outcome is measured against\<close>

text \<open>
  \<open>attempts\<close> is the plain run over the whole input: one create call per record, in
  input order, each on the store the previous call left. It lists every record with
  the answer of its call and gives the store after the last call.
\<close>

fun attempts :: "('r, 'i, 's) create_operation \<Rightarrow> string \<Rightarrow> 'r list \<Rightarrow> 's \<Rightarrow>
    ('r \<times> 'i create_result) list \<times> 's" where
  "attempts create marker [] s = ([], s)"
| "attempts create marker (r # rs) s =
     (case create marker r s of
        (res, s') \<Rightarrow>
          (case attempts create marker rs s' of
             (tr, s'') \<Rightarrow> ((r, res) # tr, s'')))"

fun applied_of :: "('r \<times> 'i create_result) list \<Rightarrow> 'i AppliedItem list" where
  "applied_of [] = []"
| "applied_of ((r, Created i) # tr) = \<lparr> remote_id = i \<rparr> # applied_of tr"
| "applied_of ((r, Rejected e) # tr) = applied_of tr"
| "applied_of ((r, Unreachable e) # tr) = applied_of tr"

fun failed_of :: "('r \<times> 'i create_result) list \<Rightarrow> 'r FailedItem list" where
  "failed_of [] = []"
| "failed_of ((r, Created i) # tr) = failed_of tr"
| "failed_of ((r, Rejected e) # tr) = \<lparr> candidate = r, reason = e \<rparr> # failed_of tr"
| "failed_of ((r, Unreachable e) # tr) = \<lparr> candidate = r, reason = e \<rparr> # failed_of tr"

definition unreachable_at_first :: "('r, 'i, 's) create_operation \<Rightarrow> string \<Rightarrow> 'r list \<Rightarrow>
    's \<Rightarrow> bool" where
  "unreachable_at_first create marker records s =
     (case records of
        [] \<Rightarrow> False
      | r # rs \<Rightarrow> (case fst (create marker r s) of Unreachable e \<Rightarrow> True | _ \<Rightarrow> False))"

subsection \<open>Applying the items concurrently\<close>

text \<open>
  Modelled from the spec: sections 5 and 9 let an implementation apply the items
  with bounded concurrency, and say how: each unit of work is tagged with its
  original index before dispatch, and on completion the results are re-sorted on
  that index, not on completion time.

  A create call is one atomic exchange with the store. A concurrent run is then
  fixed by its schedule: the list of indices in the order in which the calls reach
  the store and complete. \<open>units_in_order\<close> tags each record with its index and
  lists the units as the schedule orders them (an index that is no position of the
  input names no unit). \<open>dispatch\<close> makes the calls in that order and collects
  the results in completion order; \<open>collect\<close> builds the outcome from the results
  re-sorted on the index. The first attempt is the first call of the schedule; as
  in the sequential applier, the store being unreachable there fails the call.
\<close>

definition units_in_order :: "'r list \<Rightarrow> nat list \<Rightarrow> (nat \<times> 'r) list" where
  "units_in_order records schedule =
     map (\<lambda>i. (i, records ! i)) (filter (\<lambda>i. i < length records) schedule)"

fun dispatch :: "('r, 'i, 's) create_operation \<Rightarrow> string \<Rightarrow> (nat \<times> 'r) list \<Rightarrow> 's \<Rightarrow>
    (nat \<times> 'r \<times> 'i create_result) list \<times> 's" where
  "dispatch create marker [] s = ([], s)"
| "dispatch create marker ((i, r) # units) s =
     (case create marker r s of
        (res, s') \<Rightarrow>
          (case dispatch create marker units s' of
             (finished, s'') \<Rightarrow> ((i, r, res) # finished, s'')))"

definition collect :: "(nat \<times> 'r \<times> 'i create_result) list \<Rightarrow> ('r, 'i) ApplyOutcome" where
  "collect finished =
     \<lparr> succeeded = applied_of (map snd (sort_key fst finished)),
       failed = failed_of (map snd (sort_key fst finished)) \<rparr>"

definition apply_concurrent :: "('r, 'i, 's) create_operation \<Rightarrow> string \<Rightarrow> 'r list \<Rightarrow>
    nat list \<Rightarrow> 's \<Rightarrow> (apply_error + ('r, 'i) ApplyOutcome) \<times> 's" where
  "apply_concurrent create marker records schedule s =
     (case units_in_order records schedule of
        [] \<Rightarrow> (Inr empty_outcome, s)
      | (i, r) # units \<Rightarrow>
          (case create marker r s of
             (Unreachable e, s') \<Rightarrow> (Inl (UpstreamUnavailable e), s')
           | (res, s') \<Rightarrow>
               (case dispatch create marker units s' of
                  (finished, s'') \<Rightarrow> (Inr (collect ((i, r, res) # finished)), s''))))"

text \<open>
  A schedule of a batch names every position of the input once: sorted, it is the
  list of the positions.
\<close>

definition is_schedule :: "'r list \<Rightarrow> nat list \<Rightarrow> bool" where
  "is_schedule records schedule = (sort schedule = [0..<length records])"

subsection \<open>Sample stores\<close>

text \<open>
  Two create operations on a store that counts the create calls it has received.
  \<open>picky_store\<close> rejects the odd records and creates the even ones;
  \<open>down_store\<close> is unreachable at every call.
\<close>

definition picky_store :: "(nat, nat, nat) create_operation" where
  "picky_store marker r calls =
     (if even r then (Created (100 + r), Suc calls)
      else (Rejected ''invalid variant'', Suc calls))"

definition down_store :: "(nat, nat, nat) create_operation" where
  "down_store marker r calls = (Unreachable ''connection refused'', Suc calls)"

section \<open>SchemaValidatingGenerator\<close>

text \<open>
  Modelled from the spec: \<open>SchemaValidatingGenerator.generate\<close> (section 4.3) is
  backend code that is not among the sources. The spec's words, in order:
  \<^item> \<open>generate(promptText, schema, maxAttempts)\<close>: invoke the model with the prompt and
    parse the raw response as structured data;
  \<^item> if parsing fails or schema validation fails, retry with an augmented prompt
    that includes the validation error, up to \<open>maxAttempts\<close>;
  \<^item> if still invalid after the final attempt, fail with \<open>GenerationInvalid\<close>
    carrying the last validation error;
  \<^item> on success, return exactly the list of records from the \<open>orders\<close> or
    \<open>adjustments\<close> root key;
  \<^item> fail with \<open>ModelUnavailable\<close> if the model call itself errors; that error is not
    retried.

  The model is an operation on a state \<open>'m\<close> (the provider), answering a prompt with
  raw text or with a call error. The JSON parser, the wording of a validation error
  and the wording of the corrective feedback are operations of the generator; so is
  the validation library. The spec gives \<open>maxAttempts = 0\<close> no meaning; here no
  attempt is made and the error carried is empty.

  The root key is the one the validated schema declares: \<open>orders\<close> for a schema
  whose \<open>properties\<close> has \<open>orders\<close>, \<open>adjustments\<close> for one that has
  \<open>adjustments\<close>. The records returned are the array the reply holds under that
  key, so they are the ones validation has seen. A reply that validates but holds no
  array under the root key counts as invalid.
\<close>

datatype generation_error = ModelUnavailable string | GenerationInvalid string

record 'm generator =
  model :: "string \<Rightarrow> 'm \<Rightarrow> (string + string) \<times> 'm"
  parse_json :: "string \<Rightarrow> string + json"
  validator :: validator_lib
  describe :: "json \<Rightarrow> json \<Rightarrow> string"
  augment :: "string \<Rightarrow> string \<Rightarrow> string"

definition schema_declares :: "json \<Rightarrow> string \<Rightarrow> bool" where
  "schema_declares schema k =
     (case get_field schema ''properties'' of
        Some props \<Rightarrow> get_field props k \<noteq> None
      | None \<Rightarrow> False)"

definition root_key :: "json \<Rightarrow> string option" where
  "root_key schema =
     (if schema_declares schema ''orders'' then Some ''orders''
      else if schema_declares schema ''adjustments'' then Some ''adjustments''
      else None)"

definition root_records :: "json \<Rightarrow> json \<Rightarrow> json list option" where
  "root_records schema j =
     (case root_key schema of
        None \<Rightarrow> None
      | Some k \<Rightarrow> (case get_field j k of Some (JArr rs) \<Rightarrow> Some rs | _ \<Rightarrow> None))"

definition check_response :: "('m, 'x) generator_scheme \<Rightarrow> json \<Rightarrow> string \<Rightarrow> string + json list" where
  "check_response g schema raw =
     (case parse_json g raw of
        Inl e \<Rightarrow> Inl e
      | Inr j \<Rightarrow>
          if validate (validator g) schema j then
            (case root_records schema j of
               Some rs \<Rightarrow> Inr rs
             | None \<Rightarrow> Inl (describe g schema j))
          else Inl (describe g schema j))"

fun attempt_loop :: "'m generator \<Rightarrow> json \<Rightarrow> nat \<Rightarrow> string \<Rightarrow> string \<Rightarrow> 'm \<Rightarrow>
    (generation_error + json list) \<times> 'm" where
  "attempt_loop g schema 0 prompt prev m = (Inl (GenerationInvalid prev), m)"
| "attempt_loop g schema (Suc n) prompt prev m =
     (case model g prompt m of
        (Inl e, m') \<Rightarrow> (Inl (ModelUnavailable e), m')
      | (Inr raw, m') \<Rightarrow>
          (case check_response g schema raw of
             Inr records \<Rightarrow> (Inr records, m')
           | Inl err \<Rightarrow> attempt_loop g schema n (augment g prompt err) err m'))"

definition generate :: "'m generator \<Rightarrow> string \<Rightarrow> json \<Rightarrow> nat \<Rightarrow> 'm \<Rightarrow>
    (generation_error + json list) \<times> 'm" where
  "generate g promptText schema maxAttempts m =
     attempt_loop g schema maxAttempts promptText [] m"

subsection \<open>Counting the model invocations\<close>

text \<open>
  \<open>recording g\<close> is \<open>g\<close> with a provider that also keeps a history: every invocation of
  the model appends the prompt it was given and the answer it gave. The length of
  the history is the number of invocations.
\<close>

type_synonym invocation = "string \<times> (string + string)"

definition recording :: "'m generator \<Rightarrow> (invocation list \<times> 'm) generator" where
  "recording g =
     \<lparr> model = (\<lambda>p (hist, m). case model g p m of (r, m') \<Rightarrow> (r, (hist @ [(p, r)], m'))),
       parse_json = parse_json g,
       validator = validator g,
       describe = describe g,
       augment = augment g \<rparr>"

section \<open>PromptComposer\<close>

text \<open>
  Modelled from the spec: \<open>PromptComposer.compose\<close> (section 4.2) and the
  \<open>GenerationRequest\<close> of section 3 are backend code that is not among the sources.
  \<open>compose(request, catalogSnapshot) -> (promptText, responseSchema)\<close>: the prompt
  embeds the requested count, the date range and the catalog; the schema is the
  fixed one of the record kind, never derived from the request or the catalog.
  Filling the prompt templates of \<open>prompts.yaml\<close> is the operation \<open>render\<close>.
  A request is valid when its count is positive, and its date range too when it has
  one.
\<close>

datatype record_kind = Orders | InventoryAdjustments

record GenerationRequest =
  kind :: record_kind
  count :: nat
  dateRangeDays :: "nat option"

definition valid_request :: "GenerationRequest \<Rightarrow> bool" where
  "valid_request request =
     (0 < count request \<and>
      (case dateRangeDays request of None \<Rightarrow> True | Some d \<Rightarrow> 0 < d))"

fun schema_for :: "record_kind \<Rightarrow> json" where
  "schema_for Orders = order_response_schema"
| "schema_for InventoryAdjustments = inventory_response_schema"

definition compose :: "(GenerationRequest \<Rightarrow> CatalogItem list \<Rightarrow> string) \<Rightarrow>
    GenerationRequest \<Rightarrow> CatalogItem list \<Rightarrow> string \<times> json" where
  "compose render request catalog = (render request catalog, schema_for (kind request))"

subsection \<open>Sample generators and a sample request\<close>

text \<open>
  Three providers that count their invocations. \<open>babbling_generator\<close> always
  answers with text that is not JSON, and its parser rejects that text.
  \<open>stubborn_generator\<close> always answers with JSON that parses to one order holding
  only an email, which the order schema rejects. \<open>terse_generator\<close> always answers
  with JSON that parses to a single, complete order, whatever number the prompt asks
  for.
\<close>

definition babbling_generator :: "nat generator" where
  "babbling_generator =
     \<lparr> model = (\<lambda>p calls. (Inr ''Sure! Here are your orders'', Suc calls)),
       parse_json = (\<lambda>raw. Inl ''Expecting value: line 1 column 1 (char 0)''),
       validator = reference_lib,
       describe = (\<lambda>schema j. ''schema validation failed''),
       augment = (\<lambda>p e. p @ '' Previous error: '' @ e) \<rparr>"

definition bare_order_reply :: json where
  "bare_order_reply = JObj [(''orders'', JArr [JObj [(''email'', JStr ''ada@example.com'')]])]"

definition stubborn_generator :: "nat generator" where
  "stubborn_generator =
     \<lparr> model = (\<lambda>p calls. (Inr ''bare order'', Suc calls)),
       parse_json = (\<lambda>raw. Inr bare_order_reply),
       validator = reference_lib,
       describe = (\<lambda>schema j. ''a required property is missing''),
       augment = (\<lambda>p e. p @ '' Previous error: '' @ e) \<rparr>"

definition terse_generator :: "nat generator" where
  "terse_generator =
     \<lparr> model = (\<lambda>p calls. (Inr ''one order'', Suc calls)),
       parse_json = (\<lambda>raw. Inr (JObj [(''orders'', JArr [marked_order])])),
       validator = reference_lib,
       describe = (\<lambda>schema j. ''schema validation failed''),
       augment = (\<lambda>p e. p @ '' Previous error: '' @ e) \<rparr>"

fun decimal :: "nat \<Rightarrow> string" where
  "decimal n =
     (if n < 10 then [''0123456789'' ! n]
      else decimal (n div 10) @ [''0123456789'' ! (n mod 10)])"

definition first_sentence :: "GenerationRequest \<Rightarrow> CatalogItem list \<Rightarrow> string" where
  "first_sentence request catalog =
     ''Generate '' @ decimal (count request) @
     (case kind request of
        Orders \<Rightarrow> '' realistic orders using the following products:''
      | InventoryAdjustments \<Rightarrow>
          '' realistic inventory adjustments using the following products:'')"

definition five_orders :: GenerationRequest where
  "five_orders = \<lparr> kind = Orders, count = 5, dateRangeDays = Some 30 \<rparr>"

section \<open>Properties of the route\<close>

lemma endpoint_cases:
  "endpoint a \<in> {''/preview'', ''/generate-orders'', ''/generate-inventory'',
     ''/clear-orders'', ''/reset-inventory''}"
  by (simp add: endpoint_def)

text \<open>
  Claim C9. Any submitted \<open>action\<close> value other than \<open>"preview"\<close>,
  \<open>"generate-orders"\<close>, \<open>"generate-inventory"\<close> or \<open>"clear"\<close> (a missing field and a
  misspelled value included) selects the endpoint \<open>/reset-inventory\<close>: the handler
  posts the body to \<open>http://localhost:8000/reset-inventory\<close> and answers with what
  that request gives, so an unrecognised action is an inventory reset, not an error
  of the dispatch.
\<close>

theorem action_fallthrough_reset:
  assumes "form_get fd ''action'' \<notin>
             {Some (FString ''preview''), Some (FString ''generate-orders''),
              Some (FString ''generate-inventory''), Some (FString ''clear'')}"
  shows "endpoint (form_get fd ''action'') = ''/reset-inventory'' \<and>
         action post sess fd w =
           respond (post ''http://localhost:8000/reset-inventory'' (make_body sess fd) w)"
  using assms by (simp add: action_def endpoint_def)

theorem action_fallthrough_reset_witness:
  "endpoint (form_get [(''count'', FString ''3'')] ''action'') = ''/reset-inventory'' \<and>
   endpoint (form_get [(''action'', FString ''previw'')] ''action'') = ''/reset-inventory'' \<and>
   action (\<lambda>url b w. (if url = ''http://localhost:8000/reset-inventory''
                        then Inr (num_items b) else Inl OtherValue, Suc w))
     \<lparr>shop = ''s.myshopify.com'', accessToken = Some ''t''\<rparr>
     [(''action'', FFile ''f.txt''), (''count'', FString ''7'')] (0::nat) = (Success 7, 1)"
proof -
  have a: "form_get [(''count'', FString ''3'')] ''action'' \<notin>
             {Some (FString ''preview''), Some (FString ''generate-orders''),
              Some (FString ''generate-inventory''), Some (FString ''clear'')}"
    by (simp add: form_get_def)
  have b: "form_get [(''action'', FString ''previw'')] ''action'' \<notin>
             {Some (FString ''preview''), Some (FString ''generate-orders''),
              Some (FString ''generate-inventory''), Some (FString ''clear'')}"
    by (simp add: form_get_def)
  have c: "form_get [(''action'', FFile ''f.txt''), (''count'', FString ''7'')] ''action'' \<notin>
             {Some (FString ''preview''), Some (FString ''generate-orders''),
              Some (FString ''generate-inventory''), Some (FString ''clear'')}"
    by (simp add: form_get_def)
  have n: "num_items (make_body \<lparr>shop = ''s.myshopify.com'', accessToken = Some ''t''\<rparr>
             [(''action'', FFile ''f.txt''), (''count'', FString ''7'')]) = 7"
    by (simp add: make_body_def form_get_def js_to_string_def parseInt_def is_js_space_def
        is_radix_digit_def digit_value_def radix_value_def js_or_def)
  have e1: "endpoint (form_get [(''count'', FString ''3'')] ''action'') = ''/reset-inventory''"
    using action_fallthrough_reset [OF a] by (rule conjunct1)
  have e2: "endpoint (form_get [(''action'', FString ''previw'')] ''action'') =
      ''/reset-inventory''"
    using action_fallthrough_reset [OF b] by (rule conjunct1)
  have e3: "action (\<lambda>url b w. (if url = ''http://localhost:8000/reset-inventory''
                        then Inr (num_items b) else Inl OtherValue, Suc w))
     \<lparr>shop = ''s.myshopify.com'', accessToken = Some ''t''\<rparr>
     [(''action'', FFile ''f.txt''), (''count'', FString ''7'')] (0::nat) = (Success 7, 1)"
    using action_fallthrough_reset [OF c,
        of "\<lambda>url b w. (if url = ''http://localhost:8000/reset-inventory''
                        then Inr (num_items b) else Inl OtherValue, Suc w)"
           "\<lparr>shop = ''s.myshopify.com'', accessToken = Some ''t''\<rparr>" "0::nat"] n
    by (simp add: respond_def)
  show ?thesis
    using e1 e2 e3 by blast
qed

text \<open>
  Claim C10. The body posted to the backend is \<open>make_body\<close>; its \<open>num_items\<close> is 5
  whenever \<open>parseInt\<close> of the submitted count is \<open>NaN\<close> or 0, and its
  \<open>date_range_days\<close> is 30 whenever \<open>parseInt\<close> of the submitted date range is \<open>NaN\<close>
  or 0. In particular a count entered as \<open>"0"\<close> is sent as 5.
\<close>

theorem body_defaults:
  "action post sess fd w =
     respond (post (''http://localhost:8000'' @ endpoint (form_get fd ''action''))
                   (make_body sess fd) w) \<and>
   (parseInt (js_to_string (form_get fd ''count'')) \<in> {None, Some 0} \<longrightarrow>
      num_items (make_body sess fd) = 5) \<and>
   (parseInt (js_to_string (form_get fd ''dateRange'')) \<in> {None, Some 0} \<longrightarrow>
      date_range_days (make_body sess fd) = 30) \<and>
   (form_get fd ''count'' = Some (FString ''0'') \<longrightarrow> num_items (make_body sess fd) = 5)"
proof -
  have zero: "parseInt ''0'' = Some 0"
    by (simp add: parseInt_def is_js_space_def is_radix_digit_def digit_value_def
        radix_value_def)
  show ?thesis
    by (auto simp: action_def make_body_def js_or_def js_to_string_def zero)
qed

theorem body_defaults_witness:
  "num_items (make_body \<lparr>shop = ''s.myshopify.com'', accessToken = None\<rparr>
     [(''count'', FString ''0''), (''dateRange'', FString ''abc'')]) = 5 \<and>
   date_range_days (make_body \<lparr>shop = ''s.myshopify.com'', accessToken = None\<rparr>
     [(''count'', FString ''0''), (''dateRange'', FString ''abc'')]) = 30 \<and>
   num_items (make_body \<lparr>shop = ''s.myshopify.com'', accessToken = None\<rparr> []) = 5"
proof -
  have c0: "parseInt (js_to_string (form_get
      [(''count'', FString ''0''), (''dateRange'', FString ''abc'')] ''count'')) \<in> {None, Some 0}"
    by (simp add: form_get_def js_to_string_def parseInt_def is_js_space_def
        is_radix_digit_def digit_value_def radix_value_def)
  have d0: "parseInt (js_to_string (form_get
      [(''count'', FString ''0''), (''dateRange'', FString ''abc'')] ''dateRange'')) \<in> {None, Some 0}"
    by (simp add: form_get_def js_to_string_def parseInt_def is_js_space_def
        is_radix_digit_def digit_value_def radix_value_def)
  have n0: "parseInt (js_to_string (form_get [] ''count'')) \<in> {None, Some 0}"
    by (simp add: form_get_def js_to_string_def parseInt_def is_js_space_def
        is_radix_digit_def digit_value_def radix_value_def)
  show ?thesis
    using c0 d0 n0
      body_defaults [of "\<lambda>_ _ w. (Inl OtherValue, w)"
        "\<lparr>shop = ''s.myshopify.com'', accessToken = None\<rparr>"
        "[(''count'', FString ''0''), (''dateRange'', FString ''abc'')]" "()"]
      body_defaults [of "\<lambda>_ _ w. (Inl OtherValue, w)"
        "\<lparr>shop = ''s.myshopify.com'', accessToken = None\<rparr>" "[]" "()"]
    by blast
qed

section \<open>Properties of the response schemas\<close>

lemma has_type_object [simp]: "has_type ''object'' x \<longleftrightarrow> (\<exists>ms. x = JObj ms)"
  by (cases x) auto

lemma has_type_array [simp]: "has_type ''array'' x \<longleftrightarrow> (\<exists>ys. x = JArr ys)"
  by (cases x) auto

lemma has_type_string [simp]: "has_type ''string'' x \<longleftrightarrow> (\<exists>s. x = JStr s)"
  by (cases x) auto

lemma has_type_boolean [simp]: "has_type ''boolean'' x \<longleftrightarrow> (\<exists>b. x = JBool b)"
  by (cases x) auto

lemma has_type_integer [simp]:
  "has_type ''integer'' x \<longleftrightarrow> (\<exists>q. x = JNum q \<and> is_integer q)"
  by (cases x) auto

lemmas keyword_defs =
  type_keyword_def required_keyword_def min_items_keyword_def minimum_keyword_def
  maximum_keyword_def pattern_keyword_def format_keyword_def enum_keyword_def

lemma line_item_valid:
  "validate lib line_item_schema x \<longleftrightarrow>
     (\<exists>ms v q. x = JObj ms \<and> map_of ms ''variantId'' = Some (JStr v) \<and>
        re_search lib variant_pattern v \<and>
        map_of ms ''quantity'' = Some (JNum q) \<and> is_integer q \<and> 1 \<le> q \<and> q \<le> 5 \<and>
        (case map_of ms ''taxable'' of None \<Rightarrow> True | Some t \<Rightarrow> (\<exists>b. t = JBool b)))"
  by (cases x)
    (auto simp: line_item_schema_def keyword_defs split: option.splits json.splits)

lemma line_item_valid_invariant:
  "validate lib line_item_schema x \<Longrightarrow> line_item_invariant lib x"
  by (auto simp: line_item_valid line_item_invariant_def)

lemma custom_attribute_valid:
  "validate lib custom_attribute_schema x \<longleftrightarrow>
     (\<exists>ms k v. x = JObj ms \<and> map_of ms ''key'' = Some (JStr k) \<and>
        map_of ms ''value'' = Some (JStr v))"
  by (cases x)
    (auto simp: custom_attribute_schema_def keyword_defs split: option.splits json.splits)

lemma custom_attribute_valid_shape:
  "validate lib custom_attribute_schema x \<Longrightarrow> is_key_value x"
  by (auto simp: custom_attribute_valid is_key_value_def)

lemma order_draft_valid_parts:
  assumes "validate lib order_draft_schema d"
  shows "\<exists>ms items ts attrs. d = JObj ms \<and>
           map_of ms ''lineItems'' = Some (JArr items) \<and> items \<noteq> [] \<and>
           list_all (validate lib line_item_schema) items \<and>
           map_of ms ''tags'' = Some (JArr ts) \<and> list_all is_string ts \<and>
           map_of ms ''customAttributes'' = Some (JArr attrs) \<and> 2 \<le> length attrs \<and>
           list_all (validate lib custom_attribute_schema) attrs"
proof -
  from assms obtain ms where d: "d = JObj ms"
    by (cases d) (auto simp: order_draft_schema_def keyword_defs)
  from assms d obtain li tg ca where
    f: "map_of ms ''lineItems'' = Some li" "map_of ms ''tags'' = Some tg"
       "map_of ms ''customAttributes'' = Some ca"
    by (auto simp: order_draft_schema_def keyword_defs)
  from assms d f obtain items where li: "li = JArr items" "1 \<le> length items"
      "list_all (validate lib line_item_schema) items"
    by (cases li) (auto simp: order_draft_schema_def keyword_defs)
  from li(2) have ne: "items \<noteq> []"
    by auto
  from assms d f obtain ts where tg: "tg = JArr ts"
      "list_all (validate lib (JObj [(''type'', JStr ''string'')])) ts"
    by (cases tg) (auto simp: order_draft_schema_def keyword_defs)
  from assms d f obtain attrs where ca: "ca = JArr attrs" "2 \<le> length attrs"
      "list_all (validate lib custom_attribute_schema) attrs"
    by (cases ca) (auto simp: order_draft_schema_def keyword_defs)
  from tg(2) have "list_all is_string ts"
    by (auto simp: list_all_iff is_string_def keyword_defs)
  with d f li ne tg ca show ?thesis by auto
qed

lemma order_draft_valid_invariant:
  assumes "validate lib order_draft_schema d"
  shows "line_items_invariant lib d \<and> marker_fields_shape d"
proof -
  from order_draft_valid_parts [OF assms] obtain ms items ts attrs where
    p: "d = JObj ms" "map_of ms ''lineItems'' = Some (JArr items)" "items \<noteq> []"
       "list_all (validate lib line_item_schema) items"
       "map_of ms ''tags'' = Some (JArr ts)" "list_all is_string ts"
       "map_of ms ''customAttributes'' = Some (JArr attrs)" "2 \<le> length attrs"
       "list_all (validate lib custom_attribute_schema) attrs"
    by blast
  from p(4) have "list_all (line_item_invariant lib) items"
    by (auto simp: list_all_iff intro: line_item_valid_invariant)
  with p have li: "line_items_invariant lib d"
    by (simp add: line_items_invariant_def)
  from p(9) have "list_all is_key_value attrs"
    by (auto simp: list_all_iff intro: custom_attribute_valid_shape)
  with p have "marker_fields_shape d"
    by (simp add: marker_fields_shape_def)
  with li show ?thesis ..
qed

lemma order_response_valid_parts:
  assumes "validate lib order_response_schema resp"
  shows "\<exists>orders. get_field resp ''orders'' = Some (JArr orders) \<and>
           list_all (validate lib order_draft_schema) orders"
proof -
  from assms obtain ms where r: "resp = JObj ms"
    by (cases resp) (auto simp: order_response_schema_def keyword_defs)
  from assms r obtain os where f: "map_of ms ''orders'' = Some os"
    by (auto simp: order_response_schema_def keyword_defs)
  from assms r f obtain orders where "os = JArr orders"
      "list_all (validate lib order_draft_schema) orders"
    by (cases os) (auto simp: order_response_schema_def keyword_defs)
  with r f show ?thesis by simp
qed

lemma reference_search [simp]:
  "re_search reference_lib variant_pattern s = is_variant_gid s"
  by (simp add: reference_lib_def)

lemma marked_order_valid: "validate reference_lib order_draft_schema marked_order"
  by (simp add: order_draft_schema_def marked_order_def line_item_schema_def
      shipping_address_schema_def custom_attribute_schema_def sample_address_def
      keyword_defs is_integer_def is_variant_gid_def is_digit_def reference_lib_def)

lemma unmarked_order_valid: "validate reference_lib order_draft_schema unmarked_order"
  by (simp add: order_draft_schema_def unmarked_order_def line_item_schema_def
      shipping_address_schema_def custom_attribute_schema_def sample_address_def
      keyword_defs is_integer_def is_variant_gid_def is_digit_def reference_lib_def)

lemma orders_response_valid:
  "list_all (validate lib order_draft_schema) orders \<Longrightarrow>
   validate lib order_response_schema (JObj [(''orders'', JArr orders)])"
  by (simp add: order_response_schema_def keyword_defs)

text \<open>
  Claim C4, as amended. Every order draft of a response accepted by
  \<open>order_response_schema\<close> has a non-empty \<open>lineItems\<close> array whose items each have a
  \<open>variantId\<close> matching the pattern \<open>gid://shopify/ProductVariant/<integer>\<close> and an
  integer \<open>quantity\<close> from 1 to 5; its \<open>tags\<close> is an array of strings and its
  \<open>customAttributes\<close> an array of at least two objects with a string \<open>key\<close> and a
  string \<open>value\<close>. The schema does not fix the tag or the attributes' keys and values.
\<close>

theorem order_schema_invariants:
  assumes "validate lib order_response_schema resp"
  shows "\<exists>orders. get_field resp ''orders'' = Some (JArr orders) \<and>
           (\<forall>d \<in> set orders. line_items_invariant lib d \<and> marker_fields_shape d)"
proof -
  from order_response_valid_parts [OF assms] obtain orders where
    o: "get_field resp ''orders'' = Some (JArr orders)"
       "list_all (validate lib order_draft_schema) orders"
    by blast
  from o(2) have "\<forall>d \<in> set orders. line_items_invariant lib d \<and> marker_fields_shape d"
    by (auto simp: list_all_iff dest: order_draft_valid_invariant)
  with o(1) show ?thesis by blast
qed

theorem order_schema_invariants_witness:
  "validate reference_lib order_response_schema
     (JObj [(''orders'', JArr [marked_order, unmarked_order])]) \<and>
   line_items_invariant reference_lib marked_order \<and> marker_fields_shape marked_order \<and>
   line_items_invariant reference_lib unmarked_order \<and> marker_fields_shape unmarked_order"
proof -
  have v: "validate reference_lib order_response_schema
      (JObj [(''orders'', JArr [marked_order, unmarked_order])])"
    by (rule orders_response_valid) (simp add: marked_order_valid unmarked_order_valid)
  from order_schema_invariants [OF v] show ?thesis
    using v by simp
qed

text \<open>
  The claim as stated fails: a draft with no tag and with two custom attributes that
  are not the marker attributes is accepted.
\<close>

theorem order_schema_markers_counterexample:
  "validate reference_lib order_response_schema (JObj [(''orders'', JArr [unmarked_order])]) \<and>
   get_field (JObj [(''orders'', JArr [unmarked_order])]) ''orders'' =
     Some (JArr [unmarked_order]) \<and>
   \<not> has_marker_tag unmarked_order \<and> \<not> carries_markers unmarked_order"
proof -
  have "validate reference_lib order_response_schema (JObj [(''orders'', JArr [unmarked_order])])"
    by (rule orders_response_valid) (simp add: unmarked_order_valid)
  moreover have "\<not> has_marker_tag unmarked_order"
    by (simp add: has_marker_tag_def unmarked_order_def)
  ultimately show ?thesis
    by (simp add: carries_markers_def)
qed

lemma adjustment_valid_invariant:
  assumes "validate lib adjustment_schema a"
  shows "adjustment_invariant a \<and> ids_are_integers a"
proof -
  from assms obtain ms where a: "a = JObj ms"
    by (cases a) (auto simp: adjustment_schema_def keyword_defs)
  from assms a obtain vi pi ad re where
    f: "map_of ms ''variant_id'' = Some vi" "map_of ms ''product_id'' = Some pi"
       "map_of ms ''adjustment'' = Some ad" "map_of ms ''reason'' = Some re"
    by (auto simp: adjustment_schema_def keyword_defs)
  from assms a f obtain v where vi: "vi = JNum v" "is_integer v"
    by (cases vi) (auto simp: adjustment_schema_def keyword_defs)
  from assms a f obtain p where pi: "pi = JNum p" "is_integer p"
    by (cases pi) (auto simp: adjustment_schema_def keyword_defs)
  from assms a f obtain q where ad: "ad = JNum q" "is_integer q" "- 5 \<le> q" "q \<le> 10"
    by (cases ad) (auto simp: adjustment_schema_def keyword_defs)
  from assms a f obtain r where re: "re = JStr r"
      "r \<in> {''recount'', ''received'', ''damaged'', ''sold''}"
    by (cases re) (auto simp: adjustment_schema_def keyword_defs)
  from a f vi pi ad re show ?thesis
    by (simp add: adjustment_invariant_def ids_are_integers_def)
qed

lemma inventory_response_valid_parts:
  assumes "validate lib inventory_response_schema resp"
  shows "\<exists>adjs. get_field resp ''adjustments'' = Some (JArr adjs) \<and>
           list_all (validate lib adjustment_schema) adjs"
proof -
  from assms obtain ms where r: "resp = JObj ms"
    by (cases resp) (auto simp: inventory_response_schema_def keyword_defs)
  from assms r obtain as where f: "map_of ms ''adjustments'' = Some as"
    by (auto simp: inventory_response_schema_def keyword_defs)
  from assms r f obtain adjs where "as = JArr adjs"
      "list_all (validate lib adjustment_schema) adjs"
    by (cases as) (auto simp: inventory_response_schema_def keyword_defs)
  with r f show ?thesis by simp
qed

lemma adjustments_response_valid:
  "list_all (validate lib adjustment_schema) adjs \<Longrightarrow>
   validate lib inventory_response_schema (JObj [(''adjustments'', JArr adjs)])"
  by (simp add: inventory_response_schema_def keyword_defs)

lemma catalog_adjustment_valid: "validate reference_lib adjustment_schema catalog_adjustment"
  by (simp add: adjustment_schema_def catalog_adjustment_def keyword_defs is_integer_def
      reference_lib_def)

lemma stray_adjustment_valid: "validate reference_lib adjustment_schema stray_adjustment"
  by (simp add: adjustment_schema_def stray_adjustment_def keyword_defs is_integer_def
      reference_lib_def)

text \<open>
  Claim C5, as amended. Every inventory adjustment of a response accepted by
  \<open>inventory_response_schema\<close> has an integer \<open>adjustment\<close> in the interval from -5 to
  10, a \<open>reason\<close> among \<open>recount\<close>, \<open>received\<close>, \<open>damaged\<close> and \<open>sold\<close>, and integer
  \<open>variant_id\<close> and \<open>product_id\<close>. Validation does not look at the catalog snapshot.
\<close>

theorem inventory_schema_invariants:
  assumes "validate lib inventory_response_schema resp"
  shows "\<exists>adjs. get_field resp ''adjustments'' = Some (JArr adjs) \<and>
           (\<forall>a \<in> set adjs. adjustment_invariant a \<and> ids_are_integers a)"
proof -
  from inventory_response_valid_parts [OF assms] obtain adjs where
    o: "get_field resp ''adjustments'' = Some (JArr adjs)"
       "list_all (validate lib adjustment_schema) adjs"
    by blast
  from o(2) have "\<forall>a \<in> set adjs. adjustment_invariant a \<and> ids_are_integers a"
    by (auto simp: list_all_iff dest: adjustment_valid_invariant)
  with o(1) show ?thesis by blast
qed

theorem inventory_schema_invariants_witness:
  "validate reference_lib inventory_response_schema
     (JObj [(''adjustments'', JArr [catalog_adjustment, stray_adjustment])]) \<and>
   adjustment_invariant catalog_adjustment \<and> ids_are_integers catalog_adjustment \<and>
   adjustment_invariant stray_adjustment \<and> ids_are_integers stray_adjustment \<and>
   references_catalog sample_catalog catalog_adjustment"
proof -
  have v: "validate reference_lib inventory_response_schema
      (JObj [(''adjustments'', JArr [catalog_adjustment, stray_adjustment])])"
    by (rule adjustments_response_valid)
      (simp add: catalog_adjustment_valid stray_adjustment_valid)
  have c: "references_catalog sample_catalog catalog_adjustment"
    by (simp add: references_catalog_def sample_catalog_def catalog_adjustment_def)
  from inventory_schema_invariants [OF v] show ?thesis
    using v c by simp
qed

text \<open>
  The claim as stated fails: an adjustment whose \<open>variant_id\<close> and \<open>product_id\<close> are
  no variant and no product of the snapshot is accepted.
\<close>

theorem inventory_schema_catalog_counterexample:
  "validate reference_lib inventory_response_schema
     (JObj [(''adjustments'', JArr [stray_adjustment])]) \<and>
   get_field (JObj [(''adjustments'', JArr [stray_adjustment])]) ''adjustments'' =
     Some (JArr [stray_adjustment]) \<and>
   \<not> references_catalog sample_catalog stray_adjustment"
proof -
  have "validate reference_lib inventory_response_schema
      (JObj [(''adjustments'', JArr [stray_adjustment])])"
    by (rule adjustments_response_valid) (simp add: stray_adjustment_valid)
  moreover have "\<not> references_catalog sample_catalog stray_adjustment"
    by (simp add: references_catalog_def sample_catalog_def stray_adjustment_def)
  ultimately show ?thesis by simp
qed

section \<open>Properties of the BatchApplier\<close>

lemma place_lengths:
  "length (succeeded (place r res out)) + length (failed (place r res out)) =
   Suc (length (succeeded out) + length (failed out))"
  by (cases res) simp_all

lemma apply_each_attempts:
  "apply_each create marker rs out s =
     (out\<lparr> succeeded := succeeded out @ applied_of (fst (attempts create marker rs s)),
           failed := failed out @ failed_of (fst (attempts create marker rs s)) \<rparr>,
      snd (attempts create marker rs s))"
proof (induction rs arbitrary: out s)
  case Nil
  show ?case by simp
next
  case (Cons r rs)
  obtain res s' where c: "create marker r s = (res, s')"
    by (cases "create marker r s")
  obtain tr s'' where a: "attempts create marker rs s' = (tr, s'')"
    by (cases "attempts create marker rs s'")
  show ?case
    using Cons.IH [of "place r res out" s'] c a
    by (cases res) simp_all
qed

lemma attempts_records: "map fst (fst (attempts create marker rs s)) = rs"
proof (induction rs arbitrary: s)
  case Nil
  show ?case by simp
next
  case (Cons r rs)
  obtain res s' where c: "create marker r s = (res, s')"
    by (cases "create marker r s")
  obtain tr s'' where a: "attempts create marker rs s' = (tr, s'')"
    by (cases "attempts create marker rs s'")
  from Cons.IH [of s'] a have "map fst tr = rs" by simp
  with c a show ?case by simp
qed

lemma split_lengths: "length (applied_of tr) + length (failed_of tr) = length tr"
  by (induction tr rule: applied_of.induct) simp_all

lemma apply_batch_reachable:
  assumes "\<not> unreachable_at_first create marker records s"
  shows "apply_batch create marker records s =
           (Inr \<lparr> succeeded = applied_of (fst (attempts create marker records s)),
                  failed = failed_of (fst (attempts create marker records s)) \<rparr>,
            snd (attempts create marker records s))"
proof (cases records)
  case Nil
  then show ?thesis by (simp add: apply_batch_def empty_outcome_def)
next
  case (Cons r rs)
  obtain res s' where c: "create marker r s = (res, s')"
    by (cases "create marker r s")
  obtain tr s'' where a: "attempts create marker rs s' = (tr, s'')"
    by (cases "attempts create marker rs s'")
  from assms Cons c have nu: "\<forall>e. res \<noteq> Unreachable e"
    by (auto simp: unreachable_at_first_def)
  show ?thesis
  proof (cases res)
    case (Created i)
    with Cons c a show ?thesis
      by (simp add: apply_batch_def apply_each_attempts empty_outcome_def)
  next
    case (Rejected e)
    with Cons c a show ?thesis
      by (simp add: apply_batch_def apply_each_attempts empty_outcome_def)
  next
    case (Unreachable e)
    with nu show ?thesis by simp
  qed
qed

lemma apply_batch_unreachable:
  assumes "unreachable_at_first create marker records s"
  shows "\<exists>r rs e s'. records = r # rs \<and> create marker r s = (Unreachable e, s') \<and>
           apply_batch create marker records s = (Inl (UpstreamUnavailable e), s')"
proof (cases records)
  case Nil
  with assms show ?thesis by (simp add: unreachable_at_first_def)
next
  case (Cons r rs)
  obtain res s' where c: "create marker r s = (res, s')"
    by (cases "create marker r s")
  from assms Cons c obtain e where "res = Unreachable e"
    by (cases res) (simp_all add: unreachable_at_first_def)
  with Cons c show ?thesis by (simp add: apply_batch_def)
qed

lemma failed_of_subseq: "subseq (map candidate (failed_of tr)) (map fst tr)"
  by (induction tr rule: failed_of.induct) (simp_all add: list_emb_Cons)

lemma outcome_means_reachable:
  assumes "apply_batch create marker records s = (Inr out, s')"
  shows "\<not> unreachable_at_first create marker records s"
proof
  assume "unreachable_at_first create marker records s"
  from apply_batch_unreachable [OF this] assms show False by auto
qed

lemma picky_run:
  "attempts picky_store Marker [1, 2, 3, 4] 0 =
     ([(1, Rejected ''invalid variant''), (2, Created 102),
       (3, Rejected ''invalid variant''), (4, Created 104)], 4)"
  by (simp add: picky_store_def)

lemma picky_reachable: "\<not> unreachable_at_first picky_store Marker [1, 2, 3, 4] 0"
  by (simp add: unreachable_at_first_def picky_store_def)

lemma down_unreachable: "unreachable_at_first down_store Marker [1, 2, 3] 0"
  by (simp add: unreachable_at_first_def down_store_def)

text \<open>
  Claim C1, as amended. For every input list of \<open>N\<close> records and every create
  operation, unless the store is unreachable at the first attempt, \<open>apply\<close> returns
  an \<open>ApplyOutcome\<close> with \<open>succeeded.length + failed.length = N\<close>, and the store it
  leaves is the one left by a create call on every record of the input in turn: no
  item's failure keeps a later item from being processed. When the store is
  unreachable at the first attempt, \<open>apply\<close> fails with \<open>UpstreamUnavailable\<close> and
  returns no outcome.
\<close>

theorem apply_batch_partition:
  "(\<not> unreachable_at_first create marker records s \<longrightarrow>
      (\<exists>out. apply_batch create marker records s =
                (Inr out, snd (attempts create marker records s)) \<and>
              length (succeeded out) + length (failed out) = length records \<and>
              map fst (fst (attempts create marker records s)) = records)) \<and>
   (unreachable_at_first create marker records s \<longrightarrow>
      (\<exists>e. fst (apply_batch create marker records s) = Inl (UpstreamUnavailable e)))"
proof (intro conjI impI)
  assume r: "\<not> unreachable_at_first create marker records s"
  let ?tr = "fst (attempts create marker records s)"
  have "length (applied_of ?tr) + length (failed_of ?tr) = length (map fst ?tr)"
    by (simp add: split_lengths)
  then have "length (applied_of ?tr) + length (failed_of ?tr) = length records"
    by (simp only: attempts_records)
  with apply_batch_reachable [OF r] attempts_records [of create marker records s]
  show "\<exists>out. apply_batch create marker records s =
                (Inr out, snd (attempts create marker records s)) \<and>
              length (succeeded out) + length (failed out) = length records \<and>
              map fst (fst (attempts create marker records s)) = records"
    by simp
next
  assume "unreachable_at_first create marker records s"
  from apply_batch_unreachable [OF this]
  show "\<exists>e. fst (apply_batch create marker records s) = Inl (UpstreamUnavailable e)"
    by auto
qed

theorem apply_batch_partition_witness:
  "(\<exists>out. apply_batch picky_store Marker [1, 2, 3, 4] 0 = (Inr out, 4) \<and>
          length (succeeded out) + length (failed out) = 4) \<and>
   (\<exists>e. fst (apply_batch down_store Marker [1, 2, 3] 0) = Inl (UpstreamUnavailable e))"
proof -
  have a: "\<exists>out. apply_batch picky_store Marker [1, 2, 3, 4] 0 = (Inr out, 4) \<and>
          length (succeeded out) + length (failed out) = 4"
  proof -
    from apply_batch_partition [of picky_store Marker "[1, 2, 3, 4]" 0] picky_reachable
    have "\<exists>out. apply_batch picky_store Marker [1, 2, 3, 4] 0 =
                (Inr out, snd (attempts picky_store Marker [1, 2, 3, 4] 0)) \<and>
              length (succeeded out) + length (failed out) = length [1, 2, 3, 4 :: nat]"
      by blast
    moreover have "length [1, 2, 3, 4 :: nat] = 4"
      by simp
    ultimately show ?thesis
      unfolding picky_run snd_conv by (simp only:)
  qed
  have b: "\<exists>e. fst (apply_batch down_store Marker [1, 2, 3] 0) = Inl (UpstreamUnavailable e)"
    using apply_batch_partition [of down_store Marker "[1, 2, 3]" 0] down_unreachable
    by blast
  from a b show ?thesis ..
qed

text \<open>
  The claim as stated fails: with the store unreachable at the first attempt, a
  batch of three records gets no \<open>ApplyOutcome\<close>, and the store has received one
  create call, not three.
\<close>

theorem apply_batch_partition_counterexample:
  "apply_batch down_store Marker [1, 2, 3] 0 =
     (Inl (UpstreamUnavailable ''connection refused''), 1)"
  by (simp add: apply_batch_def down_store_def)

subsection \<open>The concurrent applier\<close>

lemma dispatch_units:
  "map (\<lambda>x. (fst x, fst (snd x))) (fst (dispatch create marker units s)) = units"
proof (induction units arbitrary: s)
  case Nil
  show ?case by simp
next
  case (Cons u units)
  obtain i r where u: "u = (i, r)" by (cases u)
  obtain res s' where c: "create marker r s = (res, s')"
    by (cases "create marker r s")
  obtain finished s'' where d: "dispatch create marker units s' = (finished, s'')"
    by (cases "dispatch create marker units s'")
  from Cons.IH [of s'] d have "map (\<lambda>x. (fst x, fst (snd x))) finished = units" by simp
  with u c d show ?case by simp
qed

lemma map_insort_key: "map f (insort_key f x xs) = insort (f x) (map f xs)"
  by (induction xs) simp_all

lemma map_sort_key: "map f (sort_key f xs) = sort (map f xs)"
  by (induction xs) (simp_all add: map_insort_key)

lemma schedule_in_range:
  assumes "is_schedule records schedule"
  shows "filter (\<lambda>i. i < length records) schedule = schedule"
proof -
  from assms have "set (sort schedule) = set [0..<length records]"
    by (simp add: is_schedule_def)
  then have "\<forall>i \<in> set schedule. i < length records"
    by auto
  then show ?thesis by simp
qed

lemma scheduled_trace:
  assumes sch: "is_schedule records schedule"
    and units: "map (\<lambda>x. (fst x, fst (snd x))) finished = units_in_order records schedule"
  shows "map fst (map snd (sort_key fst finished)) = records"
proof -
  from units have "map fst (map (\<lambda>x. (fst x, fst (snd x))) finished) =
      map fst (units_in_order records schedule)"
    by simp
  then have idx: "map fst finished = schedule"
    by (simp add: units_in_order_def schedule_in_range [OF sch] comp_def)
  have "map fst (sort_key fst finished) = sort (map fst finished)"
    by (rule map_sort_key)
  with idx sch have sorted_idx: "map fst (sort_key fst finished) = [0..<length records]"
    by (simp add: is_schedule_def)
  have own: "\<forall>x \<in> set finished. fst (snd x) = records ! fst x"
  proof
    fix x assume "x \<in> set finished"
    then have "(fst x, fst (snd x)) \<in> set (map (\<lambda>x. (fst x, fst (snd x))) finished)"
      by force
    with units have "(fst x, fst (snd x)) \<in> set (units_in_order records schedule)"
      by simp
    then show "fst (snd x) = records ! fst x"
      by (auto simp: units_in_order_def)
  qed
  have "map fst (map snd (sort_key fst finished)) =
      map (\<lambda>x. records ! fst x) (sort_key fst finished)"
    using own by (simp add: comp_def)
  also have "\<dots> = map ((!) records) (map fst (sort_key fst finished))"
    by (simp add: comp_def)
  also have "\<dots> = records"
    by (simp only: sorted_idx map_nth)
  finally show ?thesis .
qed

lemma apply_concurrent_outcome:
  assumes "apply_concurrent create marker records schedule s = (Inr out, s')"
  shows "out = collect (fst (dispatch create marker (units_in_order records schedule) s)) \<and>
         s' = snd (dispatch create marker (units_in_order records schedule) s)"
proof (cases "units_in_order records schedule")
  case Nil
  with assms show ?thesis
    by (simp add: apply_concurrent_def collect_def empty_outcome_def)
next
  case (Cons u units)
  obtain i r where u: "u = (i, r)" by (cases u)
  obtain res s1 where c: "create marker r s = (res, s1)"
    by (cases "create marker r s")
  obtain finished s2 where d: "dispatch create marker units s1 = (finished, s2)"
    by (cases "dispatch create marker units s1")
  show ?thesis
  proof (cases res)
    case (Created k)
    with assms Cons u c d show ?thesis by (simp add: apply_concurrent_def)
  next
    case (Rejected e)
    with assms Cons u c d show ?thesis by (simp add: apply_concurrent_def)
  next
    case (Unreachable e)
    with assms Cons u c show ?thesis by (simp add: apply_concurrent_def)
  qed
qed

lemma apply_concurrent_order:
  assumes sch: "is_schedule records schedule"
    and run: "apply_concurrent create marker records schedule s = (Inr out, s')"
  shows "map fst (map snd (sort_key fst
             (fst (dispatch create marker (units_in_order records schedule) s)))) = records \<and>
         succeeded out = applied_of (map snd (sort_key fst
             (fst (dispatch create marker (units_in_order records schedule) s)))) \<and>
         failed out = failed_of (map snd (sort_key fst
             (fst (dispatch create marker (units_in_order records schedule) s)))) \<and>
         subseq (map candidate (failed out)) records"
proof -
  let ?finished = "fst (dispatch create marker (units_in_order records schedule) s)"
  let ?tr = "map snd (sort_key fst ?finished)"
  have tr: "map fst ?tr = records"
    by (rule scheduled_trace [OF sch dispatch_units])
  from apply_concurrent_outcome [OF run]
  have o: "succeeded out = applied_of ?tr" "failed out = failed_of ?tr"
    by (simp_all add: collect_def)
  have "subseq (map candidate (failed_of ?tr)) (map fst ?tr)"
    by (rule failed_of_subseq)
  with tr o show ?thesis by simp
qed

text \<open>The sequential applier is the concurrent one under the schedule \<open>0, 1, 2, ...\<close>.\<close>

lemma dispatch_enumerate:
  "dispatch create marker (enumerate k rs) s =
     (enumerate k (fst (attempts create marker rs s)), snd (attempts create marker rs s))"
proof (induction rs arbitrary: k s)
  case Nil
  show ?case by simp
next
  case (Cons r rs)
  obtain res s' where c: "create marker r s = (res, s')"
    by (cases "create marker r s")
  obtain tr s'' where a: "attempts create marker rs s' = (tr, s'')"
    by (cases "attempts create marker rs s'")
  from Cons.IH [of "Suc k" s'] a c show ?case by simp
qed

lemma units_identity: "units_in_order records [0..<length records] = enumerate 0 records"
proof -
  have "units_in_order records [0..<length records] =
      map (\<lambda>i. (i, records ! i)) [0..<length records]"
    by (simp add: units_in_order_def)
  also have "\<dots> = enumerate 0 (map ((!) records) [0..<length records])"
    by (simp only: enumerate_map_upt)
  also have "\<dots> = enumerate 0 records"
    by (simp only: map_nth)
  finally show ?thesis .
qed

lemma collect_identity:
  "collect (enumerate k tr) = \<lparr> succeeded = applied_of tr, failed = failed_of tr \<rparr>"
  by (simp only: collect_def sort_key_id_if_sorted [OF sorted_enumerate] map_snd_enumerate)

lemma apply_concurrent_identity:
  "apply_concurrent create marker records [0..<length records] s =
   apply_batch create marker records s"
proof (cases records)
  case Nil
  then show ?thesis
    by (simp add: apply_concurrent_def apply_batch_def units_in_order_def)
next
  case (Cons r rs)
  obtain res s' where c: "create marker r s = (res, s')"
    by (cases "create marker r s")
  have units: "units_in_order records [0..<length records] = (0, r) # enumerate (Suc 0) rs"
    using Cons by (simp only: units_identity) simp
  have all: "(0, r, res) # enumerate (Suc 0) (fst (attempts create marker rs s')) =
      enumerate 0 ((r, res) # fst (attempts create marker rs s'))"
    by simp
  have whole: "collect ((0, r, res) # enumerate (Suc 0) (fst (attempts create marker rs s'))) =
      \<lparr> succeeded = applied_of ((r, res) # fst (attempts create marker rs s')),
        failed = failed_of ((r, res) # fst (attempts create marker rs s')) \<rparr>"
    by (simp only: all collect_identity)
  show ?thesis
  proof (cases res)
    case (Created k)
    with Cons c whole show ?thesis
      unfolding apply_concurrent_def units
      by (simp add: dispatch_enumerate apply_batch_def apply_each_attempts empty_outcome_def)
  next
    case (Rejected e)
    with Cons c whole show ?thesis
      unfolding apply_concurrent_def units
      by (simp add: dispatch_enumerate apply_batch_def apply_each_attempts empty_outcome_def)
  next
    case (Unreachable e)
    with Cons c show ?thesis
      unfolding apply_concurrent_def units
      by (simp add: apply_batch_def)
  qed
qed

lemma shuffled_schedule: "is_schedule [1, 2, 3, 4 :: nat] [2, 0, 3, 1]"
  by (simp add: is_schedule_def upt_conv_Cons)

lemma shuffled_run:
  "apply_concurrent picky_store Marker [1, 2, 3, 4] [2, 0, 3, 1] 0 =
     (Inr \<lparr> succeeded = [\<lparr> remote_id = 102 \<rparr>, \<lparr> remote_id = 104 \<rparr>],
            failed = [\<lparr> candidate = 1, reason = ''invalid variant'' \<rparr>,
                      \<lparr> candidate = 3, reason = ''invalid variant'' \<rparr>] \<rparr>, 4)"
  by (simp add: apply_concurrent_def units_in_order_def picky_store_def collect_def)

lemma shuffled_completion:
  "map fst (fst (dispatch picky_store Marker
     (units_in_order [1, 2, 3, 4] [2, 0, 3, 1]) 0)) = [2, 0, 3, 1]"
  by (simp add: units_in_order_def picky_store_def)

text \<open>
  Claim C7. \<open>apply\<close> processes the records in input order: the outcome it returns
  and the store it leaves are those of the run that calls create on the first
  record, then on the second on the store so left, and so on. \<open>succeeded\<close> holds the
  identifiers of the created records and \<open>failed\<close> the failed records with their
  reasons, each in the order of that run, so in the relative order of the input.
  The same holds when the items are applied concurrently: whatever the schedule
  (the order in which the calls reach the store and complete), the results
  re-sorted on the original index list the records in input order, each with the
  result of its own call, and \<open>succeeded\<close> and \<open>failed\<close> are the created and the
  failed ones in that order.
\<close>

theorem apply_batch_order:
  "(apply_batch create marker records s = (Inr out, s') \<longrightarrow>
      map fst (fst (attempts create marker records s)) = records \<and>
      succeeded out = applied_of (fst (attempts create marker records s)) \<and>
      failed out = failed_of (fst (attempts create marker records s)) \<and>
      subseq (map candidate (failed out)) records \<and>
      s' = snd (attempts create marker records s)) \<and>
   (is_schedule records schedule \<and>
    apply_concurrent create marker records schedule t = (Inr out2, t') \<longrightarrow>
      map fst (map snd (sort_key fst
          (fst (dispatch create marker (units_in_order records schedule) t)))) = records \<and>
      succeeded out2 = applied_of (map snd (sort_key fst
          (fst (dispatch create marker (units_in_order records schedule) t)))) \<and>
      failed out2 = failed_of (map snd (sort_key fst
          (fst (dispatch create marker (units_in_order records schedule) t)))) \<and>
      subseq (map candidate (failed out2)) records)"
proof (intro conjI impI)
  assume run: "apply_batch create marker records s = (Inr out, s')"
  let ?tr = "fst (attempts create marker records s)"
  from apply_batch_reachable [OF outcome_means_reachable [OF run]] run
  have o: "out = \<lparr> succeeded = applied_of ?tr, failed = failed_of ?tr \<rparr>"
    and s: "s' = snd (attempts create marker records s)"
    by simp_all
  have "subseq (map candidate (failed_of ?tr)) (map fst ?tr)"
    by (rule failed_of_subseq)
  then have sub: "subseq (map candidate (failed_of ?tr)) records"
    by (simp only: attempts_records)
  show "map fst ?tr = records" by (rule attempts_records)
  from o show "succeeded out = applied_of ?tr" by simp
  from o show "failed out = failed_of ?tr" by simp
  from o sub show "subseq (map candidate (failed out)) records" by simp
  from s show "s' = snd (attempts create marker records s)" .
next
  assume c: "is_schedule records schedule \<and>
    apply_concurrent create marker records schedule t = (Inr out2, t')"
  then have sch: "is_schedule records schedule"
    and run: "apply_concurrent create marker records schedule t = (Inr out2, t')"
    by simp_all
  note ord = apply_concurrent_order [OF sch run]
  from ord show "map fst (map snd (sort_key fst
      (fst (dispatch create marker (units_in_order records schedule) t)))) = records"
    by blast
  from ord show "succeeded out2 = applied_of (map snd (sort_key fst
      (fst (dispatch create marker (units_in_order records schedule) t))))"
    by blast
  from ord show "failed out2 = failed_of (map snd (sort_key fst
      (fst (dispatch create marker (units_in_order records schedule) t))))"
    by blast
  from ord show "subseq (map candidate (failed out2)) records"
    by blast
qed

theorem apply_batch_order_witness:
  "apply_batch picky_store Marker [1, 2, 3, 4] 0 =
     (Inr \<lparr> succeeded = [\<lparr> remote_id = 102 \<rparr>, \<lparr> remote_id = 104 \<rparr>],
            failed = [\<lparr> candidate = 1, reason = ''invalid variant'' \<rparr>,
                      \<lparr> candidate = 3, reason = ''invalid variant'' \<rparr>] \<rparr>, 4) \<and>
   is_schedule [1, 2, 3, 4 :: nat] [2, 0, 3, 1] \<and>
   apply_concurrent picky_store Marker [1, 2, 3, 4] [2, 0, 3, 1] 0 =
     (Inr \<lparr> succeeded = [\<lparr> remote_id = 102 \<rparr>, \<lparr> remote_id = 104 \<rparr>],
            failed = [\<lparr> candidate = 1, reason = ''invalid variant'' \<rparr>,
                      \<lparr> candidate = 3, reason = ''invalid variant'' \<rparr>] \<rparr>, 4) \<and>
   map fst (fst (dispatch picky_store Marker
     (units_in_order [1, 2, 3, 4] [2, 0, 3, 1]) 0)) = [2, 0, 3, 1] \<and>
   subseq [1, 3] [1, 2, 3, 4 :: nat]"
proof -
  have run: "apply_batch picky_store Marker [1, 2, 3, 4] 0 =
     (Inr \<lparr> succeeded = [\<lparr> remote_id = 102 \<rparr>, \<lparr> remote_id = 104 \<rparr>],
            failed = [\<lparr> candidate = 1, reason = ''invalid variant'' \<rparr>,
                      \<lparr> candidate = 3, reason = ''invalid variant'' \<rparr>] \<rparr>, 4)"
    by (simp add: apply_batch_def picky_store_def empty_outcome_def)
  from apply_batch_order [of picky_store Marker "[1, 2, 3, 4]" 0 _ 4
      "[2, 0, 3, 1]" 0 _ 4] run shuffled_schedule shuffled_run
  have "subseq [1, 3] [1, 2, 3, 4 :: nat]"
    by simp
  with run shuffled_schedule shuffled_run shuffled_completion show ?thesis
    by simp
qed

section \<open>Properties of the SchemaValidatingGenerator\<close>

lemma recording_parts:
  "parse_json (recording g) = parse_json g"
  "validator (recording g) = validator g"
  "describe (recording g) = describe g"
  by (simp_all add: recording_def)

lemma check_response_recording [simp]:
  "check_response (recording g) schema raw = check_response g schema raw"
  unfolding check_response_def recording_parts by (rule refl)

lemma augment_recording [simp]: "augment (recording g) = augment g"
  by (simp add: recording_def)

lemma model_recording [simp]:
  "model (recording g) p (hist, m) =
     (fst (model g p m), (hist @ [(p, fst (model g p m))], snd (model g p m)))"
  by (simp add: recording_def split: prod.splits)

lemma recording_same_run:
  "fst (attempt_loop (recording g) schema n prompt prev (hist, m)) =
     fst (attempt_loop g schema n prompt prev m) \<and>
   snd (snd (attempt_loop (recording g) schema n prompt prev (hist, m))) =
     snd (attempt_loop g schema n prompt prev m)"
proof (induction n arbitrary: prompt prev hist m)
  case 0
  show ?case by simp
next
  case (Suc n)
  obtain r m1 where c: "model g prompt m = (r, m1)"
    by (cases "model g prompt m")
  show ?case
  proof (cases r)
    case (Inl e)
    with c show ?thesis by simp
  next
    case (Inr raw)
    show ?thesis
    proof (cases "check_response g schema raw")
      case (Inl err)
      with c Inr Suc.IH [of "augment g prompt err" err "hist @ [(prompt, Inr raw)]" m1]
      show ?thesis by simp
    next
      case (Inr records)
      with c \<open>r = Inr raw\<close> show ?thesis by simp
    qed
  qed
qed

lemma always_invalid_loop:
  assumes inv: "\<forall>p m. \<exists>raw m'. model g p m = (Inr raw, m') \<and> bad raw"
    and chk: "\<forall>raw. bad raw \<longrightarrow> check_response g schema raw = Inl (msg raw)"
  shows "\<exists>err hist' m'.
           attempt_loop (recording g) schema n prompt prev (hist, m) =
             (Inl (GenerationInvalid err), (hist @ hist', m')) \<and>
           length hist' = n \<and>
           (n = 0 \<longrightarrow> err = prev) \<and>
           (0 < n \<longrightarrow> (\<exists>p raw. last hist' = (p, Inr raw) \<and> bad raw \<and> err = msg raw))"
proof (induction n arbitrary: prompt prev hist m)
  case 0
  show ?case by simp
next
  case (Suc n)
  from inv obtain raw m1 where c: "model g prompt m = (Inr raw, m1)"
      and bad: "bad raw"
    by blast
  from chk bad have e1: "check_response g schema raw = Inl (msg raw)"
    by blast
  from Suc.IH [of "augment g prompt (msg raw)" "msg raw" "hist @ [(prompt, Inr raw)]" m1]
  obtain err hist2 m' where
    run: "attempt_loop (recording g) schema n (augment g prompt (msg raw)) (msg raw)
            (hist @ [(prompt, Inr raw)], m1) =
          (Inl (GenerationInvalid err), ((hist @ [(prompt, Inr raw)]) @ hist2, m'))"
    and len: "length hist2 = n"
    and zero: "n = 0 \<longrightarrow> err = msg raw"
    and pos: "0 < n \<longrightarrow> (\<exists>p raw. last hist2 = (p, Inr raw) \<and> bad raw \<and> err = msg raw)"
    by blast
  have step: "attempt_loop (recording g) schema (Suc n) prompt prev (hist, m) =
      (Inl (GenerationInvalid err), (hist @ ((prompt, Inr raw) # hist2), m'))"
    using c e1 run by simp
  have lastp: "\<exists>p raw'. last ((prompt, Inr raw) # hist2) = (p, Inr raw') \<and> bad raw' \<and>
      err = msg raw'"
  proof (cases n)
    case 0
    with len zero bad show ?thesis by simp
  next
    case (Suc k)
    with len have "hist2 \<noteq> []" by auto
    with pos Suc show ?thesis by simp
  qed
  from step len lastp show ?case
    by (intro exI [of _ err] exI [of _ "(prompt, Inr raw) # hist2"] exI [of _ m']) simp
qed

lemma check_response_invalid:
  assumes "case parse_json g raw of Inl e \<Rightarrow> True
           | Inr j \<Rightarrow> \<not> validate (validator g) schema j"
  shows "check_response g schema raw =
           Inl (case parse_json g raw of Inl e \<Rightarrow> e | Inr j \<Rightarrow> describe g schema j)"
proof (cases "parse_json g raw")
  case (Inl e)
  then show ?thesis by (simp add: check_response_def)
next
  case (Inr j)
  with assms have "\<not> validate (validator g) schema j" by simp
  with Inr show ?thesis by (simp add: check_response_def)
qed

lemma check_response_valid:
  assumes "check_response g schema raw = Inr records"
  shows "\<exists>j k. parse_json g raw = Inr j \<and> validate (validator g) schema j \<and>
           root_key schema = Some k \<and> get_field j k = Some (JArr records)"
proof (cases "parse_json g raw")
  case (Inl e)
  with assms show ?thesis by (simp add: check_response_def)
next
  case (Inr j)
  with assms have v: "validate (validator g) schema j"
    by (auto simp: check_response_def split: if_splits)
  with assms Inr have r: "root_records schema j = Some records"
    by (auto simp: check_response_def split: option.splits)
  then obtain k where k: "root_key schema = Some k"
    by (cases "root_key schema") (simp_all add: root_records_def)
  with r have "get_field j k = Some (JArr records)"
    by (auto simp: root_records_def split: option.splits json.splits)
  with Inr v k show ?thesis by simp
qed

lemma success_loop:
  assumes "attempt_loop (recording g) schema n prompt prev (hist, m) =
             (Inr records, (hist', m'))"
  shows "\<exists>hist2 p raw. hist' = hist @ hist2 \<and> hist2 \<noteq> [] \<and> length hist2 \<le> n \<and>
           last hist2 = (p, Inr raw) \<and> check_response g schema raw = Inr records"
  using assms
proof (induction n arbitrary: prompt prev hist m)
  case 0
  then show ?case by simp
next
  case (Suc n)
  obtain r m1 where c: "model g prompt m = (r, m1)"
    by (cases "model g prompt m")
  show ?case
  proof (cases r)
    case (Inl e)
    with c Suc.prems show ?thesis by simp
  next
    case (Inr raw)
    show ?thesis
    proof (cases "check_response g schema raw")
      case (Inl err)
      with c Inr Suc.prems
      have "attempt_loop (recording g) schema n (augment g prompt err) err
              (hist @ [(prompt, Inr raw)], m1) = (Inr records, (hist', m'))"
        by simp
      from Suc.IH [OF this] obtain hist2 p raw' where
        h: "hist' = (hist @ [(prompt, Inr raw)]) @ hist2" "hist2 \<noteq> []" "length hist2 \<le> n"
           "last hist2 = (p, Inr raw')" "check_response g schema raw' = Inr records"
        by blast
      then show ?thesis
        by (intro exI [of _ "(prompt, Inr raw) # hist2"] exI [of _ p] exI [of _ raw']) simp
    next
      case (Inr recs)
      with c \<open>r = Inr raw\<close> Suc.prems
      have "hist' = hist @ [(prompt, Inr raw)]" "recs = records"
        by simp_all
      with Inr show ?thesis
        by (intro exI [of _ "[(prompt, Inr raw)]"] exI [of _ prompt] exI [of _ raw]) simp
    qed
  qed
qed

lemma root_key_orders [simp]: "root_key order_response_schema = Some ''orders''"
  by (simp add: root_key_def schema_declares_def order_response_schema_def)

lemma root_key_adjustments [simp]:
  "root_key inventory_response_schema = Some ''adjustments''"
  by (simp add: root_key_def schema_declares_def inventory_response_schema_def)

lemma babbling_invalid:
  "\<forall>p m. \<exists>raw m'. model babbling_generator p m = (Inr raw, m') \<and>
     (case parse_json babbling_generator raw of Inl e \<Rightarrow> True
      | Inr j \<Rightarrow> \<not> validate (validator babbling_generator) order_response_schema j)"
  by (simp add: babbling_generator_def)

lemma bare_order_rejected: "\<not> validate reference_lib order_response_schema bare_order_reply"
  by (simp add: bare_order_reply_def order_response_schema_def order_draft_schema_def
      keyword_defs)

lemma stubborn_invalid:
  "\<forall>p m. \<exists>raw m'. model stubborn_generator p m = (Inr raw, m') \<and>
     (case parse_json stubborn_generator raw of Inl e \<Rightarrow> True
      | Inr j \<Rightarrow> \<not> validate (validator stubborn_generator) order_response_schema j)"
  by (simp add: stubborn_generator_def bare_order_rejected)

text \<open>
  Claim C2. For every prompt, schema and positive \<open>maxAttempts\<close>, if every model
  invocation yields output that fails parsing or fails validation against the
  schema, then \<open>generate\<close> fails with \<open>GenerationInvalid\<close> after exactly
  \<open>maxAttempts\<close> invocations of the model, and the error it carries is that of the
  last invocation: the parser's error when the last output did not parse, the
  description of the failed validation when it did. The result is an error, so no
  record list, valid in part or not, is returned.
\<close>

theorem generate_retry_bound:
  assumes "0 < maxAttempts"
    and "\<forall>p m. \<exists>raw m'. model g p m = (Inr raw, m') \<and>
           (case parse_json g raw of
              Inl e \<Rightarrow> True
            | Inr j \<Rightarrow> \<not> validate (validator g) schema j)"
  shows "\<exists>err hist m'.
           generate (recording g) promptText schema maxAttempts ([], m) =
             (Inl (GenerationInvalid err), (hist, m')) \<and>
           length hist = maxAttempts \<and>
           (\<exists>p raw. last hist = (p, Inr raw) \<and>
              (case parse_json g raw of
                 Inl e \<Rightarrow> True
               | Inr j \<Rightarrow> \<not> validate (validator g) schema j) \<and>
              err = (case parse_json g raw of
                       Inl e \<Rightarrow> e
                     | Inr j \<Rightarrow> describe g schema j)) \<and>
           generate g promptText schema maxAttempts m = (Inl (GenerationInvalid err), m')"
proof -
  let ?bad = "\<lambda>raw. case parse_json g raw of Inl e \<Rightarrow> True
                     | Inr j \<Rightarrow> \<not> validate (validator g) schema j"
  let ?msg = "\<lambda>raw. case parse_json g raw of Inl e \<Rightarrow> e | Inr j \<Rightarrow> describe g schema j"
  have inv: "\<forall>p m. \<exists>raw m'. model g p m = (Inr raw, m') \<and> ?bad raw"
    by (rule assms(2))
  have chk: "\<forall>raw. ?bad raw \<longrightarrow> check_response g schema raw = Inl (?msg raw)"
    by (intro allI impI) (rule check_response_invalid)
  from always_invalid_loop [of g ?bad schema ?msg maxAttempts promptText "[]" "[]" m,
      OF inv chk] assms(1)
  obtain err hist m' p raw where
    run: "attempt_loop (recording g) schema maxAttempts promptText [] ([], m) =
            (Inl (GenerationInvalid err), (hist, m'))"
    and len: "length hist = maxAttempts"
    and lst: "last hist = (p, Inr raw)"
    and b: "?bad raw"
    and e: "err = ?msg raw"
    by auto
  from recording_same_run [of g schema maxAttempts promptText "[]" "[]" m] run
  have plain: "attempt_loop g schema maxAttempts promptText [] m =
      (Inl (GenerationInvalid err), m')"
    by (cases "attempt_loop g schema maxAttempts promptText [] m") simp
  show ?thesis
  proof (intro exI conjI)
    show "generate (recording g) promptText schema maxAttempts ([], m) =
        (Inl (GenerationInvalid err), (hist, m'))"
      using run by (simp add: generate_def)
    show "length hist = maxAttempts" by (rule len)
    show "last hist = (p, Inr raw)" by (rule lst)
    show "?bad raw" by (rule b)
    show "err = ?msg raw" by (rule e)
    show "generate g promptText schema maxAttempts m = (Inl (GenerationInvalid err), m')"
      using plain by (simp add: generate_def)
  qed
qed

theorem generate_retry_bound_witness:
  "generate babbling_generator ''Generate 5 realistic orders'' order_response_schema 3 0 =
     (Inl (GenerationInvalid ''Expecting value: line 1 column 1 (char 0)''), 3) \<and>
   generate stubborn_generator ''Generate 5 realistic orders'' order_response_schema 3 0 =
     (Inl (GenerationInvalid ''a required property is missing''), 3) \<and>
   (\<exists>hist. snd (generate (recording stubborn_generator) ''Generate 5 realistic orders''
                  order_response_schema 3 ([], 0)) = (hist, 3) \<and> length hist = 3)"
proof -
  have pos: "0 < (3::nat)" by simp
  have r1: "generate babbling_generator ''Generate 5 realistic orders''
      order_response_schema 3 0 =
     (Inl (GenerationInvalid ''Expecting value: line 1 column 1 (char 0)''), 3)"
    by (simp add: generate_def babbling_generator_def check_response_def numeral_3_eq_3)
  have r2: "generate stubborn_generator ''Generate 5 realistic orders''
      order_response_schema 3 0 =
     (Inl (GenerationInvalid ''a required property is missing''), 3)"
    using bare_order_rejected
    by (simp add: generate_def stubborn_generator_def check_response_def numeral_3_eq_3)
  from generate_retry_bound [OF pos babbling_invalid, of "''Generate 5 realistic orders''" 0]
    generate_retry_bound [OF pos stubborn_invalid, of "''Generate 5 realistic orders''" 0]
  show ?thesis
    using r1 r2 by auto
qed

section \<open>Properties of a successful generation\<close>

lemma terse_model: "model terse_generator p calls = (Inr ''one order'', Suc calls)"
  by (simp add: terse_generator_def)

lemma terse_check:
  "check_response terse_generator order_response_schema raw = Inr [marked_order]"
  using marked_order_valid
  by (simp add: terse_generator_def check_response_def orders_response_valid
      root_records_def)

lemma terse_run:
  "generate terse_generator p order_response_schema 3 0 = (Inr [marked_order], 1)"
  by (simp add: generate_def numeral_3_eq_3 terse_model terse_check)

lemma terse_recorded_run:
  "generate (recording terse_generator) p order_response_schema 3 ([], 0) =
     (Inr [marked_order], ([(p, Inr ''one order'')], 1))"
  by (simp add: generate_def numeral_3_eq_3 terse_model terse_check)

lemma compose_five_orders:
  "compose first_sentence five_orders sample_catalog =
     (''Generate 5 realistic orders using the following products:'', order_response_schema)"
  by (simp add: compose_def first_sentence_def five_orders_def)

text \<open>
  Claim C3, as amended. For every \<open>GenerationRequest\<close>, a successful \<open>generate\<close>
  call on the prompt and schema composed for it returns the records taken verbatim
  from the root key of the model's last reply, parsed: \<open>orders\<close> for an orders
  request, \<open>adjustments\<close> for an inventory request. That reply has passed
  validation against the schema, so each returned record satisfies the invariants
  the schema enforces for its kind, and callers need not validate again. The number
  of records is the number the reply holds; the schema does not bound it, and it
  need not be the requested count.
\<close>

theorem generate_success_records:
  assumes "compose render request catalog = (promptText, schema)"
    and "generate (recording g) promptText schema maxAttempts ([], m) =
           (Inr records, (hist, m'))"
  shows "\<exists>p raw j.
           hist \<noteq> [] \<and> length hist \<le> maxAttempts \<and> last hist = (p, Inr raw) \<and>
           parse_json g raw = Inr j \<and> validate (validator g) schema j \<and>
           (case kind request of
              Orders \<Rightarrow>
                get_field j ''orders'' = Some (JArr records) \<and>
                (\<forall>d \<in> set records.
                   line_items_invariant (validator g) d \<and> marker_fields_shape d)
            | InventoryAdjustments \<Rightarrow>
                get_field j ''adjustments'' = Some (JArr records) \<and>
                (\<forall>a \<in> set records. adjustment_invariant a \<and> ids_are_integers a)) \<and>
           fst (generate g promptText schema maxAttempts m) = Inr records"
proof -
  from assms(1) have schema: "schema = schema_for (kind request)"
    by (simp add: compose_def)
  from assms(2)
  have run: "attempt_loop (recording g) schema maxAttempts promptText [] ([], m) =
      (Inr records, (hist, m'))"
    by (simp add: generate_def)
  from success_loop [OF run] obtain p raw where
    h: "hist \<noteq> []" "length hist \<le> maxAttempts" "last hist = (p, Inr raw)"
    and ok: "check_response g schema raw = Inr records"
    by auto
  from check_response_valid [OF ok] obtain j k where
    j: "parse_json g raw = Inr j" "validate (validator g) schema j"
    and k: "root_key schema = Some k" "get_field j k = Some (JArr records)"
    by blast
  have by_kind: "case kind request of
      Orders \<Rightarrow>
        get_field j ''orders'' = Some (JArr records) \<and>
        (\<forall>d \<in> set records. line_items_invariant (validator g) d \<and> marker_fields_shape d)
    | InventoryAdjustments \<Rightarrow>
        get_field j ''adjustments'' = Some (JArr records) \<and>
        (\<forall>a \<in> set records. adjustment_invariant a \<and> ids_are_integers a)"
  proof (cases "kind request")
    case Orders
    with schema have s: "schema = order_response_schema" by simp
    with k have f: "get_field j ''orders'' = Some (JArr records)" by simp
    from j(2) s order_response_valid_parts [of "validator g" j] f
    have "list_all (validate (validator g) order_draft_schema) records"
      by auto
    then have "\<forall>d \<in> set records.
        line_items_invariant (validator g) d \<and> marker_fields_shape d"
      by (auto simp: list_all_iff dest: order_draft_valid_invariant)
    with Orders f show ?thesis by simp
  next
    case InventoryAdjustments
    with schema have s: "schema = inventory_response_schema" by simp
    with k have f: "get_field j ''adjustments'' = Some (JArr records)" by simp
    from j(2) s inventory_response_valid_parts [of "validator g" j] f
    have "list_all (validate (validator g) adjustment_schema) records"
      by auto
    then have "\<forall>a \<in> set records. adjustment_invariant a \<and> ids_are_integers a"
      by (auto simp: list_all_iff dest: adjustment_valid_invariant)
    with InventoryAdjustments f show ?thesis by simp
  qed
  from recording_same_run [of g schema maxAttempts promptText "[]" "[]" m] run
  have plain: "fst (generate g promptText schema maxAttempts m) = Inr records"
    by (simp add: generate_def)
  from h j by_kind plain show ?thesis
    by blast
qed

theorem generate_success_records_witness:
  "generate (recording terse_generator)
     ''Generate 5 realistic orders using the following products:''
     order_response_schema 3 ([], 0) =
     (Inr [marked_order],
      ([(''Generate 5 realistic orders using the following products:'', Inr ''one order'')], 1)) \<and>
   line_items_invariant reference_lib marked_order \<and> marker_fields_shape marked_order"
proof -
  from generate_success_records [OF compose_five_orders terse_recorded_run]
  have "line_items_invariant (validator terse_generator) marked_order \<and>
      marker_fields_shape marked_order"
    by (auto simp: five_orders_def)
  then have "line_items_invariant reference_lib marked_order \<and>
      marker_fields_shape marked_order"
    by (simp add: terse_generator_def)
  with terse_recorded_run show ?thesis by simp
qed

text \<open>
  The claim as stated fails: for a valid request of five orders, a reply holding one
  valid order passes validation at the first attempt, and \<open>generate\<close> returns that
  one record.
\<close>

theorem generate_count_counterexample:
  "valid_request five_orders \<and>
   generate terse_generator
     (fst (compose first_sentence five_orders sample_catalog))
     (snd (compose first_sentence five_orders sample_catalog)) 3 0 =
     (Inr [marked_order], 1) \<and>
   length [marked_order] \<noteq> count five_orders"
proof -
  have "valid_request five_orders"
    by (simp add: valid_request_def five_orders_def)
  moreover have "length [marked_order] \<noteq> count five_orders"
    by (simp add: five_orders_def)
  ultimately show ?thesis
    by (simp add: compose_five_orders terse_run)
qed

end
